theory Spec2Isabelle
  imports Main "HOL-Library.Word" "HOL-Library.Char_ord" "HOL-Library.List_Lexorder"
begin

section \<open>Matchmaking backend: the document store\<close>

subsection \<open>Object identifiers\<close>

text \<open>
  Every document of the store carries an \<^verbatim>\<open>_id\<close>, a 12-byte object identifier.
  \<^verbatim>\<open>str(oid)\<close> renders it as 24 lower-case hexadecimal digits; \<^verbatim>\<open>ObjectId(s)\<close>
  accepts a string of exactly 24 hexadecimal digits of either case. The handlers of
  \<^verbatim>\<open>main.py\<close> store references between documents as the \<^verbatim>\<open>str\<close> form and
  parse path and body parameters with \<^verbatim>\<open>ObjectId\<close>.

  The model rejects every other string. The library differs on one kind of input: its
  parser skips ASCII white space, so a string of 24 characters made of hexadecimal
  digit pairs and white space is accepted and yields an identifier of fewer than 12
  bytes, which no stored document carries. Such strings are outside this model, and no
  property below is stated at one.
\<close>

type_synonym oid = "96 word"

definition hexdigit :: "nat \<Rightarrow> char" where
  "hexdigit n = ''0123456789abcdef'' ! (n mod 16)"

text \<open>\<open>digits b k n\<close>: the \<open>k\<close> low digits of \<open>n\<close> in base \<open>b\<close>, most significant
  first.\<close>

fun digits :: "nat \<Rightarrow> nat \<Rightarrow> nat \<Rightarrow> string" where
  "digits b 0 n = []"
| "digits b (Suc k) n = hexdigit (n div b ^ k mod b) # digits b k n"

definition str_oid :: "oid \<Rightarrow> string" where
  "str_oid w = digits 16 24 (unat w)"

definition hexval :: "char \<Rightarrow> nat option" where
  "hexval c =
     (let n = (of_char c :: nat) in
      if 48 \<le> n \<and> n \<le> 57 then Some (n - 48)
      else if 97 \<le> n \<and> n \<le> 102 then Some (n - 87)
      else if 65 \<le> n \<and> n \<le> 70 then Some (n - 55)
      else None)"

fun fromhex :: "nat \<Rightarrow> string \<Rightarrow> nat option" where
  "fromhex acc [] = Some acc"
| "fromhex acc (c # cs) =
     (case hexval c of None \<Rightarrow> None | Some v \<Rightarrow> fromhex (16 * acc + v) cs)"

definition ObjectId :: "string \<Rightarrow> oid option" where
  "ObjectId s = (if length s = 24 then map_option of_nat (fromhex 0 s) else None)"

subsection \<open>Documents and collections\<close>

text \<open>
  The pydantic models of \<^verbatim>\<open>schemas.py\<close>, one per collection. The fields of
  \<^verbatim>\<open>Profile\<close> that \<^verbatim>\<open>main.py\<close> reads or filters on are fields of the record;
  the remaining fields of the schema, which the handlers only copy, travel together in
  \<open>other_fields\<close> as the key-value pairs of the dumped model.
\<close>

record Userauth =
  email :: string
  stripe_customer_id :: "string option"
  stripe_session_id :: "string option"
  paid :: bool
  token :: string
  verified :: bool

record Profile =
  userauth_id :: string
  full_name :: string
  birth_date :: string
  religion :: string
  religion_level :: string
  occupation :: "string option"
  income_range :: "string option"
  education_level :: "string option"
  diet :: "string option"
  city :: "string option"
  photo_url :: "string option"
  other_fields :: "(string \<times> string) list"

record Like =
  from_userauth_id :: string
  to_userauth_id :: string

record Match =
  userauth_a :: string
  userauth_b :: string

record Message =
  match_id :: string
  msg_from_userauth_id :: string
  msg_text :: string

text \<open>A stored document: the fields of its model under the identifier and the creation
  time the store gave it.\<close>

record 'a document =
  doc_id :: oid
  created_at :: nat
  doc :: 'a

record store =
  db_userauth :: "Userauth document list"
  db_profile :: "Profile document list"
  db_like :: "Like document list"
  db_match :: "Match document list"
  db_message :: "Message document list"

text \<open>The driver's collection operations used by the handlers, on a collection kept in
  storage order.\<close>

definition find_one :: "('a \<Rightarrow> bool) \<Rightarrow> 'a list \<Rightarrow> 'a option" where
  "find_one P xs = List.find P xs"

definition delete_many :: "('a \<Rightarrow> bool) \<Rightarrow> 'a list \<Rightarrow> 'a list" where
  "delete_many P xs = filter (\<lambda>x. \<not> P x) xs"

fun delete_first :: "('a \<Rightarrow> bool) \<Rightarrow> 'a list \<Rightarrow> 'a list" where
  "delete_first P [] = []"
| "delete_first P (x # xs) = (if P x then xs else x # delete_first P xs)"

text \<open>\<^verbatim>\<open>delete_one\<close> returns the collection and its \<^verbatim>\<open>deleted_count\<close>.\<close>

definition delete_one :: "('a \<Rightarrow> bool) \<Rightarrow> 'a list \<Rightarrow> 'a list \<times> nat" where
  "delete_one P xs = (delete_first P xs, if find_one P xs = None then 0 else 1)"

fun update_one :: "('a \<Rightarrow> bool) \<Rightarrow> ('a \<Rightarrow> 'a) \<Rightarrow> 'a list \<Rightarrow> 'a list" where
  "update_one P f [] = []"
| "update_one P f (x # xs) = (if P x then f x # xs else x # update_one P f xs)"

text \<open>
  Modelled from the spec: \<^verbatim>\<open>create_document\<close> of the module \<^verbatim>\<open>database\<close>, which
  is not among the source files. The spec describes the store as supporting insert, with
  documents keyed by an opaque identifier and messages carrying a server-assigned
  creation timestamp; results are returned in storage order. The identifier and the
  timestamp the store assigns are inputs of the model, so nothing is assumed about them.
\<close>

definition create_document ::
  "'a document list \<Rightarrow> oid \<Rightarrow> nat \<Rightarrow> 'a \<Rightarrow> 'a document list" where
  "create_document coll new_id now data =
     coll @ [\<lparr>doc_id = new_id, created_at = now, doc = data\<rparr>]"

subsection \<open>Failures\<close>

text \<open>A handler either returns its response or raises: an \<^verbatim>\<open>HTTPException\<close> with its
  status code and detail, or a \<^verbatim>\<open>ValueError\<close> or \<^verbatim>\<open>OverflowError\<close> that nothing
  catches. A raise does not
  undo the writes made before it, so every handler returns the store together with its
  outcome.\<close>

datatype exn = HTTPException nat string | ValueError | OverflowError

type_synonym 'a outcome = "exn + 'a"

section \<open>Authentication\<close>

definition require_auth :: "string option \<Rightarrow> store \<Rightarrow> Userauth document outcome" where
  "require_auth tok s =
     (case tok of
        None \<Rightarrow> Inl (HTTPException 401 ''Missing token'')
      | Some t \<Rightarrow>
          if t = [] then Inl (HTTPException 401 ''Missing token'')
          else (case find_one (\<lambda>u. token (doc u) = t) (db_userauth s) of
                  None \<Rightarrow> Inl (HTTPException 401 ''Invalid token'')
                | Some user \<Rightarrow> Inr user))"

section \<open>Likes and matches\<close>

text \<open>
  \<^verbatim>\<open>like_user\<close>: the two identifiers and the time are what the store assigns to the
  like document and, when one is created, to the match document.
\<close>

definition like_user ::
  "Like \<Rightarrow> string option \<Rightarrow> oid \<Rightarrow> oid \<Rightarrow> nat \<Rightarrow> store \<Rightarrow> store \<times> string outcome" where
  "like_user payload tok like_oid match_oid now s =
     (case require_auth tok s of
        Inl e \<Rightarrow> (s, Inl e)
      | Inr user \<Rightarrow>
          if str_oid (doc_id user) = to_userauth_id payload
          then (s, Inl (HTTPException 400 ''Cannot like yourself''))
          else
            let s1 = s\<lparr>db_like := create_document (db_like s) like_oid now
                         \<lparr>from_userauth_id = str_oid (doc_id user),
                          to_userauth_id = to_userauth_id payload\<rparr>\<rparr>;
                mutual = find_one
                  (\<lambda>l. from_userauth_id (doc l) = to_userauth_id payload \<and>
                       to_userauth_id (doc l) = str_oid (doc_id user)) (db_like s1)
            in (case mutual of
                  Some _ \<Rightarrow>
                    (let exists = find_one
                       (\<lambda>m. (userauth_a (doc m) = str_oid (doc_id user) \<and>
                              userauth_b (doc m) = to_userauth_id payload) \<or>
                             (userauth_a (doc m) = to_userauth_id payload \<and>
                              userauth_b (doc m) = str_oid (doc_id user))) (db_match s1)
                     in (case exists of
                           None \<Rightarrow>
                             (s1\<lparr>db_match := create_document (db_match s1) match_oid now
                                   \<lparr>userauth_a = str_oid (doc_id user),
                                    userauth_b = to_userauth_id payload\<rparr>\<rparr>,
                              Inr ''match'')
                         | Some _ \<Rightarrow> (s1, Inr ''match'')))
                | None \<Rightarrow> (s1, Inr ''liked'')))"


definition get_matches :: "string option \<Rightarrow> store \<Rightarrow> Match document list outcome" where
  "get_matches tok s =
     (case require_auth tok s of
        Inl e \<Rightarrow> Inl e
      | Inr user \<Rightarrow>
          Inr (filter (\<lambda>m. userauth_a (doc m) = str_oid (doc_id user) \<or>
                           userauth_b (doc m) = str_oid (doc_id user)) (db_match s)))"

section \<open>Chat\<close>

record ChatMessage =
  chat_match_id :: string
  chat_text :: string

text \<open>The lookup both chat handlers start with: an identifier that \<^verbatim>\<open>ObjectId\<close>
  rejects is caught and counts as no match.\<close>

definition find_match :: "string \<Rightarrow> store \<Rightarrow> Match document option" where
  "find_match mid s =
     (case ObjectId mid of
        None \<Rightarrow> None
      | Some i \<Rightarrow> find_one (\<lambda>m. doc_id m = i) (db_match s))"

definition send_message ::
  "ChatMessage \<Rightarrow> string option \<Rightarrow> oid \<Rightarrow> nat \<Rightarrow> store \<Rightarrow> store \<times> string outcome" where
  "send_message msg tok msg_oid now s =
     (case require_auth tok s of
        Inl e \<Rightarrow> (s, Inl e)
      | Inr user \<Rightarrow>
          (case find_match (chat_match_id msg) s of
             None \<Rightarrow> (s, Inl (HTTPException 404 ''Match not found''))
           | Some m \<Rightarrow>
               if str_oid (doc_id user) \<notin> set [userauth_a (doc m), userauth_b (doc m)]
               then (s, Inl (HTTPException 403 ''Not allowed''))
               else
                 (s\<lparr>db_message := create_document (db_message s) msg_oid now
                      \<lparr>match_id = chat_match_id msg,
                       msg_from_userauth_id = str_oid (doc_id user),
                       msg_text = chat_text msg\<rparr>\<rparr>,
                  Inr ''sent'')))"

text \<open>\<^verbatim>\<open>get_messages\<close> reads only; the history is sorted by creation time (the model
  keeps storage order among equal times).\<close>

definition get_messages ::
  "string \<Rightarrow> string option \<Rightarrow> store \<Rightarrow> Message document list outcome" where
  "get_messages mid tok s =
     (case require_auth tok s of
        Inl e \<Rightarrow> Inl e
      | Inr user \<Rightarrow>
          (case find_match mid s of
             None \<Rightarrow> Inl (HTTPException 404 ''Match not found'')
           | Some m \<Rightarrow>
               if str_oid (doc_id user) \<notin> set [userauth_a (doc m), userauth_b (doc m)]
               then Inl (HTTPException 403 ''Not allowed'')
               else Inr (sort_key created_at
                           (filter (\<lambda>d. match_id (doc d) = mid) (db_message s)))))"

section \<open>Profiles\<close>

definition create_or_update_profile ::
  "Profile \<Rightarrow> string option \<Rightarrow> oid \<Rightarrow> nat \<Rightarrow> store \<Rightarrow> store \<times> string outcome" where
  "create_or_update_profile profile tok new_oid now s =
     (case require_auth tok s of
        Inl e \<Rightarrow> (s, Inl e)
      | Inr user \<Rightarrow>
          if \<not> paid (doc user) then (s, Inl (HTTPException 402 ''Payment required''))
          else
            let profile_dict = profile\<lparr>userauth_id := str_oid (doc_id user)\<rparr>;
                existing = find_one (\<lambda>p. userauth_id (doc p) = str_oid (doc_id user))
                             (db_profile s)
            in (case existing of
                  Some e \<Rightarrow>
                    (s\<lparr>db_profile := update_one (\<lambda>p. doc_id p = doc_id e)
                          (\<lambda>p. p\<lparr>doc := profile_dict\<rparr>) (db_profile s)\<rparr>,
                     Inr ''updated'')
                | None \<Rightarrow>
                    (s\<lparr>db_profile := create_document (db_profile s) new_oid now profile_dict\<rparr>,
                     Inr ''created'')))"

section \<open>Admin\<close>

text \<open>\<^verbatim>\<open>ADMIN_TOKEN\<close> is read from the environment, with a default.\<close>

definition ADMIN_TOKEN :: "string option \<Rightarrow> string" where
  "ADMIN_TOKEN env = (case env of None \<Rightarrow> ''admin-secret'' | Some v \<Rightarrow> v)"

definition require_admin :: "string option \<Rightarrow> string option \<Rightarrow> unit outcome" where
  "require_admin env tok =
     (if tok \<noteq> Some (ADMIN_TOKEN env) then Inl (HTTPException 401 ''Unauthorized admin'')
      else Inr ())"

definition admin_delete_user ::
  "string option \<Rightarrow> string option \<Rightarrow> string \<Rightarrow> store \<Rightarrow> store \<times> string outcome" where
  "admin_delete_user env tok uid s =
     (case require_admin env tok of
        Inl e \<Rightarrow> (s, Inl e)
      | Inr _ \<Rightarrow>
          (case ObjectId uid of
             None \<Rightarrow> (s, Inl (HTTPException 400 ''Invalid user id''))
           | Some i \<Rightarrow>
               let s1 = s\<lparr>db_profile := delete_many (\<lambda>p. userauth_id (doc p) = uid) (db_profile s)\<rparr>;
                   s2 = s1\<lparr>db_like := delete_many
                              (\<lambda>l. from_userauth_id (doc l) = uid \<or> to_userauth_id (doc l) = uid)
                              (db_like s1)\<rparr>;
                   s3 = s2\<lparr>db_match := delete_many
                              (\<lambda>m. userauth_a (doc m) = uid \<or> userauth_b (doc m) = uid)
                              (db_match s2)\<rparr>;
                   s4 = s3\<lparr>db_message := delete_many
                              (\<lambda>d. msg_from_userauth_id (doc d) = uid) (db_message s3)\<rparr>;
                   res = delete_one (\<lambda>u. doc_id u = i) (db_userauth s4);
                   s5 = s4\<lparr>db_userauth := fst res\<rparr>
               in if snd res = 0 then (s5, Inl (HTTPException 404 ''User not found''))
                  else (s5, Inr ''deleted'')))"


section \<open>Search\<close>

subsection \<open>Calendar dates\<close>

text \<open>\<^verbatim>\<open>datetime.date\<close>: the constructor takes its arguments as C integers and
  raises \<^verbatim>\<open>OverflowError\<close> for one that does not fit; it raises
  \<^verbatim>\<open>ValueError\<close> unless the year is in 1..9999 and month and day name a day of the
  calendar; \<^verbatim>\<open>isoformat\<close> prints \<^verbatim>\<open>YYYY-MM-DD\<close>, zero-padded.\<close>

record pydate =
  year :: int
  month :: int
  day :: int

definition is_leap :: "int \<Rightarrow> bool" where
  "is_leap y = (y mod 4 = 0 \<and> (y mod 100 \<noteq> 0 \<or> y mod 400 = 0))"

definition days_in_month :: "int \<Rightarrow> int \<Rightarrow> int" where
  "days_in_month y m =
     (if m = 2 then (if is_leap y then 29 else 28)
      else if m = 4 \<or> m = 6 \<or> m = 9 \<or> m = 11 then 30 else 31)"

definition valid_date :: "pydate \<Rightarrow> bool" where
  "valid_date d =
     (1 \<le> year d \<and> year d \<le> 9999 \<and> 1 \<le> month d \<and> month d \<le> 12 \<and>
      1 \<le> day d \<and> day d \<le> days_in_month (year d) (month d))"

definition c_int :: "int \<Rightarrow> bool" where
  "c_int x = (- (2 ^ 31) \<le> x \<and> x < 2 ^ 31)"

definition date :: "int \<Rightarrow> int \<Rightarrow> int \<Rightarrow> pydate outcome" where
  "date y m d =
     (if \<not> (c_int y \<and> c_int m \<and> c_int d) then Inl OverflowError
      else if valid_date \<lparr>year = y, month = m, day = d\<rparr>
      then Inr \<lparr>year = y, month = m, day = d\<rparr> else Inl ValueError)"

definition isoformat :: "pydate \<Rightarrow> string" where
  "isoformat d =
     digits 10 4 (nat (year d)) @ ''-'' @ digits 10 2 (nat (month d)) @ ''-'' @
     digits 10 2 (nat (day d))"

text \<open>Calendar order, and the day before a date; both are used to state properties of
  the age filter, not by the handlers.\<close>

definition date_le :: "pydate \<Rightarrow> pydate \<Rightarrow> bool" where
  "date_le a b =
     (year a < year b \<or> (year a = year b \<and>
       (month a < month b \<or> (month a = month b \<and> day a \<le> day b))))"

definition prev_day :: "pydate \<Rightarrow> pydate" where
  "prev_day d =
     (if 1 < day d then d\<lparr>day := day d - 1\<rparr>
      else if 1 < month d
        then \<lparr>year = year d, month = month d - 1, day = days_in_month (year d) (month d - 1)\<rparr>
        else \<lparr>year = year d - 1, month = 12, day = 31\<rparr>)"

subsection \<open>The query of \<^verbatim>\<open>search_profiles\<close>\<close>

record search_params =
  age_min :: "int option"
  age_max :: "int option"
  q_city :: "string option"
  q_religion :: "string option"
  q_religion_level :: "string option"
  q_education_level :: "string option"
  q_occupation :: "string option"
  q_income_range :: "string option"
  q_diet :: "string option"
  verified_only :: bool

text \<open>The filter document \<^verbatim>\<open>match\<close>: a key that is absent is \<open>None\<close>.\<close>

record match_query =
  m_city_regex :: "string option"
  m_religion :: "string option"
  m_religion_level :: "string option"
  m_education_level :: "string option"
  m_occupation :: "string option"
  m_income_range :: "string option"
  m_diet :: "string option"
  m_birth_date_lte :: "string option"
  m_birth_date_gte :: "string option"

text \<open>\<^verbatim>\<open>if city:\<close> and its siblings skip a parameter that is absent or empty.\<close>

definition truthy :: "string option \<Rightarrow> string option" where
  "truthy x = (case x of None \<Rightarrow> None | Some v \<Rightarrow> if v = [] then None else Some v)"

definition birth_bound :: "pydate \<Rightarrow> int option \<Rightarrow> string option outcome" where
  "birth_bound today age =
     (case age of
        None \<Rightarrow> Inr None
      | Some a \<Rightarrow>
          (case date (year today - max a 0) (month today) (day today) of
             Inl e \<Rightarrow> Inl e
           | Inr b \<Rightarrow> Inr (Some (isoformat b))))"

text \<open>The equality and prefix filters, as the handler collects them first; the
  bounds on \<^verbatim>\<open>birth_date\<close> are added afterwards.\<close>

definition base_match :: "search_params \<Rightarrow> match_query" where
  "base_match q =
     \<lparr>m_city_regex = map_option (\<lambda>c. ''^'' @ c) (truthy (q_city q)),
      m_religion = truthy (q_religion q),
      m_religion_level = truthy (q_religion_level q),
      m_education_level = truthy (q_education_level q),
      m_occupation = truthy (q_occupation q),
      m_income_range = truthy (q_income_range q),
      m_diet = truthy (q_diet q),
      m_birth_date_lte = None,
      m_birth_date_gte = None\<rparr>"

definition search_match :: "pydate \<Rightarrow> search_params \<Rightarrow> match_query outcome" where
  "search_match today q =
     (case birth_bound today (age_min q) of
        Inl e \<Rightarrow> Inl e
      | Inr min_birth \<Rightarrow>
          (case birth_bound today (age_max q) of
             Inl e \<Rightarrow> Inl e
           | Inr max_birth \<Rightarrow>
               Inr ((base_match q)\<lparr>m_birth_date_lte := min_birth,
                                   m_birth_date_gte := max_birth\<rparr>)))"

text \<open>
  Which profiles a filter document selects. Strings compare byte by byte, a proper
  prefix before its extensions, as the store's default collation does; the store's
  regular-expression engine (\<open>rx pattern subject\<close>, case-insensitive) is a parameter.
\<close>

definition opt_eq :: "string option \<Rightarrow> string option \<Rightarrow> bool" where
  "opt_eq want have = (case want of None \<Rightarrow> True | Some v \<Rightarrow> have = Some v)"

definition profile_matches ::
  "(string \<Rightarrow> string \<Rightarrow> bool) \<Rightarrow> match_query \<Rightarrow> Profile document \<Rightarrow> bool" where
  "profile_matches rx m p =
     ((case m_city_regex m of
         None \<Rightarrow> True
       | Some pat \<Rightarrow> (case city (doc p) of None \<Rightarrow> False | Some c \<Rightarrow> rx pat c)) \<and>
      opt_eq (m_religion m) (Some (religion (doc p))) \<and>
      opt_eq (m_religion_level m) (Some (religion_level (doc p))) \<and>
      opt_eq (m_education_level m) (education_level (doc p)) \<and>
      opt_eq (m_occupation m) (occupation (doc p)) \<and>
      opt_eq (m_income_range m) (income_range (doc p)) \<and>
      opt_eq (m_diet m) (diet (doc p)) \<and>
      (case m_birth_date_lte m of None \<Rightarrow> True | Some v \<Rightarrow> birth_date (doc p) \<le> v) \<and>
      (case m_birth_date_gte m of None \<Rightarrow> True | Some v \<Rightarrow> birth_date (doc p) \<ge> v))"

text \<open>
  \<^verbatim>\<open>search_profiles\<close> up to its query: the list \<^verbatim>\<open>profiles\<close> that the handler
  then turns into cards. The cards (a derived age computed in floating point, the
  owner's verified flag) are not part of this model.
\<close>

definition search_profiles_candidates ::
  "(string \<Rightarrow> string \<Rightarrow> bool) \<Rightarrow> pydate \<Rightarrow> search_params \<Rightarrow> string option \<Rightarrow> store
     \<Rightarrow> Profile document list outcome" where
  "search_profiles_candidates rx today q tok s =
     (case require_auth tok s of
        Inl e \<Rightarrow> Inl e
      | Inr user \<Rightarrow>
          (case search_match today q of
             Inl e \<Rightarrow> Inl e
           | Inr m \<Rightarrow> Inr (filter (profile_matches rx m) (db_profile s))))"


section \<open>Properties\<close>

subsection \<open>Vocabulary of the social graph\<close>

text \<open>A Like edge \<open>x \<rightarrow> y\<close> is a like document from \<open>x\<close> to \<open>y\<close>; the Match edges of
  the unordered pair \<open>{x, y}\<close> are the match documents naming the two in either
  orientation.\<close>

definition has_like :: "store \<Rightarrow> string \<Rightarrow> string \<Rightarrow> bool" where
  "has_like s x y =
     (\<exists>l \<in> set (db_like s). from_userauth_id (doc l) = x \<and> to_userauth_id (doc l) = y)"

definition match_for :: "string \<Rightarrow> string \<Rightarrow> Match document \<Rightarrow> bool" where
  "match_for x y m =
     ((userauth_a (doc m) = x \<and> userauth_b (doc m) = y) \<or>
      (userauth_a (doc m) = y \<and> userauth_b (doc m) = x))"

definition matches_for :: "store \<Rightarrow> string \<Rightarrow> string \<Rightarrow> Match document list" where
  "matches_for s x y = filter (match_for x y) (db_match s)"

text \<open>One call of \<^verbatim>\<open>like_user\<close> with everything it receives, and a sequence of calls
  executed one at a time, each on the store the previous one left.\<close>

record like_request =
  req_payload :: Like
  req_token :: "string option"
  req_like_oid :: oid
  req_match_oid :: oid
  req_now :: nat

definition like_step :: "like_request \<Rightarrow> store \<Rightarrow> store \<times> string outcome" where
  "like_step r s =
     like_user (req_payload r) (req_token r) (req_like_oid r) (req_match_oid r) (req_now r) s"

fun like_sequence :: "like_request list \<Rightarrow> store \<Rightarrow> store" where
  "like_sequence [] s = s"
| "like_sequence (r # rs) s = like_sequence rs (fst (like_step r s))"

text \<open>The uniqueness invariant of the social graph: no unordered pair has two Match
  edges, and a pair of distinct identities that like each other has one.\<close>

definition graph_inv :: "store \<Rightarrow> bool" where
  "graph_inv s =
     ((\<forall>x y. length (matches_for s x y) \<le> 1) \<and>
      (\<forall>x y. x \<noteq> y \<and> has_like s x y \<and> has_like s y x \<longrightarrow> length (matches_for s x y) = 1))"


subsection \<open>A small store for concrete runs\<close>

text \<open>Three identities: Alice and Bob have paid, Carol has not. No profile, like, match
  or message is stored yet.\<close>

definition alice :: "Userauth document" where
  "alice = \<lparr>doc_id = 1, created_at = 0,
             doc = \<lparr>email = ''alice@example.org'', stripe_customer_id = None,
                    stripe_session_id = Some ''sess-a'', paid = True,
                    token = ''tok-a'', verified = False\<rparr>\<rparr>"

definition bob :: "Userauth document" where
  "bob = \<lparr>doc_id = 2, created_at = 0,
           doc = \<lparr>email = ''bob@example.org'', stripe_customer_id = None,
                  stripe_session_id = Some ''sess-b'', paid = True,
                  token = ''tok-b'', verified = True\<rparr>\<rparr>"

definition carol :: "Userauth document" where
  "carol = \<lparr>doc_id = 3, created_at = 0,
             doc = \<lparr>email = ''carol@example.org'', stripe_customer_id = None,
                    stripe_session_id = Some ''sess-c'', paid = False,
                    token = ''tok-c'', verified = False\<rparr>\<rparr>"

definition store0 :: store where
  "store0 = \<lparr>db_userauth = [alice, bob, carol], db_profile = [], db_like = [],
              db_match = [], db_message = []\<rparr>"

definition like_to :: "string \<Rightarrow> Like" where
  "like_to t = \<lparr>from_userauth_id = [], to_userauth_id = t\<rparr>"

definition id_alice :: string where "id_alice = ''000000000000000000000001''"
definition id_bob :: string where "id_bob = ''000000000000000000000002''"
definition id_carol :: string where "id_carol = ''000000000000000000000003''"

text \<open>Alice likes Bob, then Bob likes Alice.\<close>

definition req_alice_bob :: like_request where
  "req_alice_bob = \<lparr>req_payload = like_to id_bob, req_token = Some ''tok-a'',
                     req_like_oid = 16, req_match_oid = 17, req_now = 5\<rparr>"

definition req_bob_alice :: like_request where
  "req_bob_alice = \<lparr>req_payload = like_to id_alice, req_token = Some ''tok-b'',
                     req_like_oid = 18, req_match_oid = 19, req_now = 6\<rparr>"

text \<open>The store after the two likes: Alice and Bob are matched, Carol is not involved.\<close>

definition store1 :: store where
  "store1 = store0
     \<lparr>db_like := [\<lparr>doc_id = 16, created_at = 5,
                     doc = \<lparr>from_userauth_id = id_alice, to_userauth_id = id_bob\<rparr>\<rparr>,
                   \<lparr>doc_id = 18, created_at = 6,
                     doc = \<lparr>from_userauth_id = id_bob, to_userauth_id = id_alice\<rparr>\<rparr>],
      db_match := [\<lparr>doc_id = 19, created_at = 6,
                     doc = \<lparr>userauth_a = id_bob, userauth_b = id_alice\<rparr>\<rparr>]\<rparr>"

definition id_match :: string where "id_match = ''000000000000000000000013''"

definition chat :: "string \<Rightarrow> string \<Rightarrow> ChatMessage" where
  "chat m t = \<lparr>chat_match_id = m, chat_text = t\<rparr>"

text \<open>The same store with a profile each for Alice and Bob.\<close>

definition a_profile :: "string \<Rightarrow> string \<Rightarrow> string \<Rightarrow> Profile" where
  "a_profile owner name born =
     \<lparr>userauth_id = owner, full_name = name, birth_date = born, religion = ''Islam'',
      religion_level = ''Moderat'', occupation = None, income_range = None,
      education_level = None, diet = None, city = Some ''Bandung'', photo_url = None,
      other_fields = []\<rparr>"

definition store2 :: store where
  "store2 = store1
     \<lparr>db_profile := [\<lparr>doc_id = 48, created_at = 2,
                        doc = a_profile id_alice ''Alice'' ''1990-05-17''\<rparr>,
                      \<lparr>doc_id = 49, created_at = 3,
                        doc = a_profile id_bob ''Bob'' ''1988-11-02''\<rparr>]\<rparr>"

text \<open>Dave's identifier has letters among its digits, so its string form can also be
  spelled in upper case. He has a profile, a like of Alice, a match with her and a
  message in it.\<close>

definition id_dave :: string where "id_dave = ''0000000000000000000000ab''"
definition id_dave_upper :: string where "id_dave_upper = ''0000000000000000000000AB''"

definition dave :: "Userauth document" where
  "dave = \<lparr>doc_id = 171, created_at = 0,
            doc = \<lparr>email = ''dave@example.org'', stripe_customer_id = None,
                   stripe_session_id = Some ''sess-d'', paid = True,
                   token = ''tok-d'', verified = False\<rparr>\<rparr>"

definition store_dave :: store where
  "store_dave =
     \<lparr>db_userauth = [alice, dave],
      db_profile = [\<lparr>doc_id = 64, created_at = 1,
                      doc = a_profile id_dave ''Dave'' ''1991-03-09''\<rparr>],
      db_like = [\<lparr>doc_id = 65, created_at = 2,
                   doc = \<lparr>from_userauth_id = id_dave, to_userauth_id = id_alice\<rparr>\<rparr>],
      db_match = [\<lparr>doc_id = 66, created_at = 3,
                    doc = \<lparr>userauth_a = id_dave, userauth_b = id_alice\<rparr>\<rparr>],
      db_message = [\<lparr>doc_id = 67, created_at = 4,
                      doc = \<lparr>match_id = ''000000000000000000000042'',
                             msg_from_userauth_id = id_dave, msg_text = ''hello''\<rparr>\<rparr>]\<rparr>"

subsection \<open>Vocabulary of the age filter\<close>

text \<open>The date \<^verbatim>\<open>search_profiles\<close> builds for an age bound: today's month and day in
  the year \<^verbatim>\<open>today.year - max(age, 0)\<close>. It is a calendar date exactly when the
  constructor \<^verbatim>\<open>date\<close> accepts it.\<close>

definition cutoff :: "pydate \<Rightarrow> int \<Rightarrow> pydate" where
  "cutoff today age = \<lparr>year = year today - max age 0, month = month today, day = day today\<rparr>"

text \<open>A search on 15 June 2024 that sets the age bounds only, over three profiles: born
  on 15 June 1994, one day before that, and on 14 June 2025.\<close>

definition today0 :: pydate where
  "today0 = \<lparr>year = 2024, month = 6, day = 15\<rparr>"

definition by_age :: "int option \<Rightarrow> int option \<Rightarrow> search_params" where
  "by_age lo hi =
     \<lparr>age_min = lo, age_max = hi, q_city = None, q_religion = None,
      q_religion_level = None, q_education_level = None, q_occupation = None,
      q_income_range = None, q_diet = None, verified_only = False\<rparr>"

definition no_regex :: "string \<Rightarrow> string \<Rightarrow> bool" where
  "no_regex pat subject = False"

definition born_on_cutoff :: "Profile document" where
  "born_on_cutoff = \<lparr>doc_id = 96, created_at = 1,
                      doc = a_profile id_alice ''Alice'' ''1994-06-15''\<rparr>"

definition born_day_before :: "Profile document" where
  "born_day_before = \<lparr>doc_id = 97, created_at = 2,
                       doc = a_profile id_bob ''Bob'' ''1994-06-14''\<rparr>"

definition born_next_year :: "Profile document" where
  "born_next_year = \<lparr>doc_id = 98, created_at = 3,
                      doc = a_profile id_carol ''Carol'' ''2025-06-14''\<rparr>"

definition store3 :: store where
  "store3 = store0\<lparr>db_profile := [born_on_cutoff, born_day_before, born_next_year]\<rparr>"

section \<open>Lemmas on identifiers and collections\<close>

lemma hexval_hexdigit: "d < 16 \<Longrightarrow> hexval (hexdigit d) = Some d"
proof -
  assume "d < 16"
  then have "d = 0 \<or> d = 1 \<or> d = 2 \<or> d = 3 \<or> d = 4 \<or> d = 5 \<or> d = 6 \<or> d = 7 \<or> d = 8 \<or>
     d = 9 \<or> d = 10 \<or> d = 11 \<or> d = 12 \<or> d = 13 \<or> d = 14 \<or> d = 15" by arith
  then show ?thesis by (auto simp: hexval_def hexdigit_def)
qed

lemma fromhex_digits: "fromhex acc (digits 16 k n) = Some (acc * 16 ^ k + n mod 16 ^ k)"
proof (induction k arbitrary: acc)
  case 0
  show ?case by simp
next
  case (Suc k)
  have "n mod (16 ^ k * 16) = 16 ^ k * (n div 16 ^ k mod 16) + n mod 16 ^ k"
    by (rule mod_mult2_eq)
  then show ?case
    by (simp add: hexval_hexdigit Suc.IH algebra_simps)
qed

lemma length_digits [simp]: "length (digits b k n) = k"
  by (induction k) auto

text \<open>Parsing the string form of an identifier gives the identifier back.\<close>

lemma ObjectId_str_oid: "ObjectId (str_oid i) = Some i"
proof -
  have "unat i < 2 ^ 96" using unsigned_less [of i] by simp
  then have "unat i mod 16 ^ 24 = unat i" by simp
  then show ?thesis
    by (simp add: ObjectId_def str_oid_def fromhex_digits)
qed

lemma str_oid_inject: "str_oid i = str_oid j \<longleftrightarrow> i = j"
proof
  assume "str_oid i = str_oid j"
  then have "ObjectId (str_oid i) = ObjectId (str_oid j)" by simp
  then show "i = j" by (simp add: ObjectId_str_oid)
qed simp

lemma digits_numeral:
  "digits b (numeral k) n =
     hexdigit (n div b ^ pred_numeral k mod b) # digits b (pred_numeral k) n"
  by (simp add: numeral_eq_Suc)

lemma str_oid_1: "str_oid 1 = ''000000000000000000000001''"
  by (simp add: str_oid_def digits_numeral hexdigit_def)

lemma str_oid_2: "str_oid 2 = ''000000000000000000000002''"
  by (simp add: str_oid_def digits_numeral hexdigit_def)

lemma str_oid_3: "str_oid 3 = ''000000000000000000000003''"
  by (simp add: str_oid_def digits_numeral hexdigit_def)

lemma find_one_None: "find_one P xs = None \<longleftrightarrow> (\<forall>x\<in>set xs. \<not> P x)"
  by (auto simp add: find_one_def find_None_iff)

lemma find_one_Some: "find_one P xs = Some x \<Longrightarrow> x \<in> set xs \<and> P x"
  unfolding find_one_def by (induction xs) (auto split: if_splits)

lemma require_auth_cases:
  obtains e where "require_auth tok s = Inl e" | user where "require_auth tok s = Inr user"
  by (cases "require_auth tok s") auto

lemma require_auth_member: "require_auth tok s = Inr user \<Longrightarrow> user \<in> set (db_userauth s)"
  by (auto simp: require_auth_def split: option.splits if_splits dest: find_one_Some)

lemma require_auth_error:
  "require_auth tok s = Inl e \<Longrightarrow>
     e = HTTPException 401 ''Missing token'' \<or> e = HTTPException 401 ''Invalid token''"
  by (auto simp: require_auth_def split: option.splits if_splits)

lemma auth_alice: "require_auth (Some ''tok-a'') store0 = Inr alice"
  by (simp add: require_auth_def store0_def find_one_def alice_def)

lemma auth_bob: "require_auth (Some ''tok-b'') store0 = Inr bob"
  by (simp add: require_auth_def store0_def find_one_def alice_def bob_def)

lemma auth_carol: "require_auth (Some ''tok-c'') store0 = Inr carol"
  by (simp add: require_auth_def store0_def find_one_def alice_def bob_def carol_def)

section \<open>Lemmas on \<^verbatim>\<open>like_user\<close>\<close>

lemma like_user_unauthorized:
  "require_auth tok s = Inl e \<Longrightarrow> like_user payload tok lo mo now s = (s, Inl e)"
  by (simp add: like_user_def)

lemma like_user_self:
  assumes "require_auth tok s = Inr user" "to_userauth_id payload = str_oid (doc_id user)"
  shows "like_user payload tok lo mo now s = (s, Inl (HTTPException 400 ''Cannot like yourself''))"
  using assms by (simp add: like_user_def)

text \<open>What a call that passes both checks does, in terms of the graph vocabulary.\<close>

lemma like_user_other:
  assumes "require_auth tok s = Inr user" "to_userauth_id payload \<noteq> str_oid (doc_id user)"
  shows "like_user payload tok lo mo now s =
    (let u = str_oid (doc_id user); t = to_userauth_id payload;
         s1 = s\<lparr>db_like := db_like s @
                  [\<lparr>doc_id = lo, created_at = now,
                    doc = \<lparr>from_userauth_id = u, to_userauth_id = t\<rparr>\<rparr>]\<rparr>
     in if has_like s t u
        then (if matches_for s u t = []
              then s1\<lparr>db_match := db_match s @
                        [\<lparr>doc_id = mo, created_at = now,
                          doc = \<lparr>userauth_a = u, userauth_b = t\<rparr>\<rparr>]\<rparr>
              else s1, Inr ''match'')
        else (s1, Inr ''liked''))"
  using assms
  apply (simp add: like_user_def Let_def create_document_def has_like_def matches_for_def
      split: option.splits)
  apply (auto simp: find_one_None filter_empty_conv match_for_def dest!: find_one_Some)
  done

lemma like_user_db_like:
  assumes "require_auth tok s = Inr user" "to_userauth_id payload \<noteq> str_oid (doc_id user)"
  shows "db_like (fst (like_user payload tok lo mo now s)) =
     db_like s @ [\<lparr>doc_id = lo, created_at = now,
                   doc = \<lparr>from_userauth_id = str_oid (doc_id user),
                          to_userauth_id = to_userauth_id payload\<rparr>\<rparr>]"
  by (simp add: like_user_other [OF assms] Let_def)

lemma like_user_db_match:
  assumes "require_auth tok s = Inr user" "to_userauth_id payload \<noteq> str_oid (doc_id user)"
  shows "db_match (fst (like_user payload tok lo mo now s)) =
     db_match s @
       (if has_like s (to_userauth_id payload) (str_oid (doc_id user)) \<and>
           matches_for s (str_oid (doc_id user)) (to_userauth_id payload) = []
        then [\<lparr>doc_id = mo, created_at = now,
                doc = \<lparr>userauth_a = str_oid (doc_id user),
                       userauth_b = to_userauth_id payload\<rparr>\<rparr>]
        else [])"
  by (simp add: like_user_other [OF assms] Let_def)

lemma like_user_status:
  assumes "require_auth tok s = Inr user" "to_userauth_id payload \<noteq> str_oid (doc_id user)"
  shows "snd (like_user payload tok lo mo now s) =
     Inr (if has_like s (to_userauth_id payload) (str_oid (doc_id user))
          then ''match'' else ''liked'')"
  by (simp add: like_user_other [OF assms] Let_def)

section \<open>Claims\<close>

text \<open>
  C5. For every authenticated identity, a like whose target is the requester's own id
  fails with status 400 (\<^verbatim>\<open>Cannot like yourself\<close>, the spec's InvalidTarget), and the
  store the call returns is the store it received: no Like edge and no Match edge is
  inserted.
\<close>

theorem like_self_invalid_target:
  assumes "require_auth tok s = Inr user"
    and "to_userauth_id payload = str_oid (doc_id user)"
  shows "like_user payload tok like_oid match_oid now s =
           (s, Inl (HTTPException 400 ''Cannot like yourself''))"
  using assms by (simp add: like_user_def)

theorem like_self_invalid_target_witness:
  "like_user (like_to ''000000000000000000000001'') (Some ''tok-a'') 16 17 5 store0 =
     (store0, Inl (HTTPException 400 ''Cannot like yourself''))"
  using like_self_invalid_target [of "Some ''tok-a''" store0 alice
      "like_to ''000000000000000000000001''" 16 17 5]
  by (simp add: auth_alice like_to_def alice_def str_oid_1)

lemma has_like_after:
  assumes "require_auth tok s = Inr user" "to_userauth_id payload \<noteq> str_oid (doc_id user)"
  shows "has_like (fst (like_user payload tok lo mo now s)) x y \<longleftrightarrow>
     has_like s x y \<or> (x = str_oid (doc_id user) \<and> y = to_userauth_id payload)"
  unfolding has_like_def like_user_db_like [OF assms] by auto

lemma ids: "str_oid (doc_id alice) = id_alice" "str_oid (doc_id bob) = id_bob"
  "str_oid (doc_id carol) = id_carol"
  by (simp_all add: alice_def bob_def carol_def id_alice_def id_bob_def id_carol_def
      str_oid_1 str_oid_2 str_oid_3)

lemma ids_distinct: "id_alice \<noteq> id_bob" "id_bob \<noteq> id_alice" "id_alice \<noteq> id_carol"
  "id_carol \<noteq> id_alice" "id_bob \<noteq> id_carol" "id_carol \<noteq> id_bob"
  by (simp_all add: id_alice_def id_bob_def id_carol_def)

lemma to_like_to [simp]: "to_userauth_id (like_to t) = t"
  by (simp add: like_to_def)

lemma store0_sel [simp]:
  "db_userauth store0 = [alice, bob, carol]" "db_profile store0 = []" "db_like store0 = []"
  "db_match store0 = []" "db_message store0 = []"
  by (simp_all add: store0_def)

lemma like_user_success:
  assumes "like_user payload tok lo mo now s = (s', Inr st)"
  obtains user where "require_auth tok s = Inr user"
    "to_userauth_id payload \<noteq> str_oid (doc_id user)"
proof (cases tok s rule: require_auth_cases)
  case (1 e)
  with assms show ?thesis by (simp add: like_user_unauthorized)
next
  case (2 user)
  show ?thesis
  proof (cases "to_userauth_id payload = str_oid (doc_id user)")
    case True
    with 2 assms show ?thesis by (simp add: like_user_self)
  next
    case False
    with 2 that show ?thesis by blast
  qed
qed

lemma like_user_db_userauth [simp]:
  "db_userauth (fst (like_user payload tok lo mo now s)) = db_userauth s"
proof (cases tok s rule: require_auth_cases)
  case (1 e)
  then show ?thesis by (simp add: like_user_unauthorized)
next
  case (2 user)
  then show ?thesis
    by (cases "to_userauth_id payload = str_oid (doc_id user)")
      (simp_all add: like_user_self like_user_other Let_def)
qed

text \<open>
  C4. For every authenticated requester and every target other than the requester's own
  id, the call returns \<^verbatim>\<open>liked\<close> exactly when the store holds no Like edge from the
  target to the requester, and \<^verbatim>\<open>match\<close> exactly when it holds one. The like the
  call itself inserts runs the other way, so the store the mutual check reads agrees on
  this with the store the call received.
\<close>

theorem like_status_by_reverse_like:
  assumes "require_auth tok s = Inr user"
    and "to_userauth_id payload \<noteq> str_oid (doc_id user)"
  shows "(snd (like_user payload tok like_oid match_oid now s) = Inr ''liked'' \<longleftrightarrow>
            \<not> has_like s (to_userauth_id payload) (str_oid (doc_id user))) \<and>
         (snd (like_user payload tok like_oid match_oid now s) = Inr ''match'' \<longleftrightarrow>
            has_like s (to_userauth_id payload) (str_oid (doc_id user))) \<and>
         (has_like (fst (like_user payload tok like_oid match_oid now s))
            (to_userauth_id payload) (str_oid (doc_id user)) \<longleftrightarrow>
            has_like s (to_userauth_id payload) (str_oid (doc_id user)))"
  using assms by (auto simp: like_user_status has_like_after)

theorem like_status_by_reverse_like_witness:
  "snd (like_user (like_to id_bob) (Some ''tok-a'') 16 17 5 store0) = Inr ''liked'' \<and>
   \<not> has_like store0 id_bob id_alice"
proof -
  have other: "to_userauth_id (like_to id_bob) \<noteq> str_oid (doc_id alice)"
    by (simp add: ids ids_distinct)
  show ?thesis
    using like_status_by_reverse_like [OF auth_alice other, of 16 17 5]
    by (simp add: ids has_like_def)
qed

text \<open>
  C1, as the spec states it: a requester whose \<open>paid\<close> flag is false is refused with
  PaymentRequired and no Like edge is inserted. The handler never reads the flag. Carol
  has not paid; her like of Bob returns \<^verbatim>\<open>liked\<close> and the Like edge is stored.
\<close>

theorem unpaid_like_succeeds:
  "require_auth (Some ''tok-c'') store0 = Inr carol \<and> \<not> paid (doc carol) \<and>
   like_user (like_to id_bob) (Some ''tok-c'') 16 17 5 store0 =
     (store0\<lparr>db_like := [\<lparr>doc_id = 16, created_at = 5,
         doc = \<lparr>from_userauth_id = id_carol, to_userauth_id = id_bob\<rparr>\<rparr>]\<rparr>, Inr ''liked'')"
proof -
  have other: "to_userauth_id (like_to id_bob) \<noteq> str_oid (doc_id carol)"
    by (simp add: ids ids_distinct)
  have "\<not> paid (doc carol)" by (simp add: carol_def)
  then show ?thesis
    by (simp add: auth_carol like_user_other [OF auth_carol other] ids has_like_def)
qed

text \<open>
  C1, amended. \<^verbatim>\<open>like_user\<close> does not consult the requester's \<open>paid\<close> flag: for
  every authenticated requester, paid or not, and every target other than the
  requester's own id, the call succeeds with \<^verbatim>\<open>liked\<close> or \<^verbatim>\<open>match\<close> and appends
  the Like edge from the requester to the target; and no call of \<^verbatim>\<open>like_user\<close> fails
  with status 402.
\<close>

theorem like_never_payment_required:
  "(require_auth tok s = Inr user \<and> to_userauth_id payload \<noteq> str_oid (doc_id user) \<longrightarrow>
      (snd (like_user payload tok like_oid match_oid now s) = Inr ''liked'' \<or>
       snd (like_user payload tok like_oid match_oid now s) = Inr ''match'') \<and>
      db_like (fst (like_user payload tok like_oid match_oid now s)) =
        db_like s @ [\<lparr>doc_id = like_oid, created_at = now,
                      doc = \<lparr>from_userauth_id = str_oid (doc_id user),
                             to_userauth_id = to_userauth_id payload\<rparr>\<rparr>]) \<and>
   snd (like_user payload tok like_oid match_oid now s) \<noteq> Inl (HTTPException 402 detail)"
proof (cases tok s rule: require_auth_cases)
  case (1 e)
  then show ?thesis
    using require_auth_error [OF 1] by (auto simp: like_user_unauthorized)
next
  case (2 u)
  show ?thesis
  proof (cases "to_userauth_id payload = str_oid (doc_id u)")
    case True
    then show ?thesis using 2 by (simp add: like_user_self)
  next
    case False
    then show ?thesis using 2
      by (simp add: like_user_status like_user_db_like)
  qed
qed

theorem like_never_payment_required_witness:
  "\<not> paid (doc carol) \<and>
   snd (like_user (like_to id_bob) (Some ''tok-c'') 16 17 5 store0) = Inr ''liked'' \<and>
   db_like (fst (like_user (like_to id_bob) (Some ''tok-c'') 16 17 5 store0)) =
     [\<lparr>doc_id = 16, created_at = 5,
       doc = \<lparr>from_userauth_id = id_carol, to_userauth_id = id_bob\<rparr>\<rparr>]"
proof -
  have other: "to_userauth_id (like_to id_bob) \<noteq> str_oid (doc_id carol)"
    by (simp add: ids ids_distinct)
  have st: "snd (like_user (like_to id_bob) (Some ''tok-c'') 16 17 5 store0) \<noteq> Inr ''match''"
    by (simp add: like_user_status [OF auth_carol other] has_like_def)
  have unpaid: "\<not> paid (doc carol)" by (simp add: carol_def)
  show ?thesis
    using like_never_payment_required [of "Some ''tok-c''" store0 carol "like_to id_bob" 16 17 5 "[]"]
      auth_carol other st unpaid
    by (simp add: ids)
qed

text \<open>
  C3, as the spec states it: a Like edge never points to an id without a stored
  identity. The handler does not look the target up. Alice's like of the id
  \<^verbatim>\<open>ffffffffffffffffffffffff\<close>, which belongs to none of the three stored identities,
  returns \<^verbatim>\<open>liked\<close> and stores the edge.
\<close>

theorem like_of_unknown_target:
  "db_userauth store0 = [alice, bob, carol] \<and>
   str_oid (doc_id alice) \<noteq> ''ffffffffffffffffffffffff'' \<and>
   str_oid (doc_id bob) \<noteq> ''ffffffffffffffffffffffff'' \<and>
   str_oid (doc_id carol) \<noteq> ''ffffffffffffffffffffffff'' \<and>
   like_user (like_to ''ffffffffffffffffffffffff'') (Some ''tok-a'') 16 17 5 store0 =
     (store0\<lparr>db_like := [\<lparr>doc_id = 16, created_at = 5,
         doc = \<lparr>from_userauth_id = id_alice,
                to_userauth_id = ''ffffffffffffffffffffffff''\<rparr>\<rparr>]\<rparr>, Inr ''liked'')"
proof -
  have other: "to_userauth_id (like_to ''ffffffffffffffffffffffff'') \<noteq> str_oid (doc_id alice)"
    by (simp add: ids id_alice_def)
  show ?thesis
    by (simp add: like_user_other [OF auth_alice other] ids has_like_def
        id_alice_def id_bob_def id_carol_def)
qed

text \<open>
  C3, amended. Every successful call of \<^verbatim>\<open>like_user\<close> appends exactly one Like edge;
  its source is the id of an identity stored at that time, the authenticated requester;
  its target is the id the caller supplied, which differs from the requester's id and
  is not looked up in the store. The identities are left as they were.
\<close>

theorem like_edge_endpoints:
  assumes "like_user payload tok like_oid match_oid now s = (s', Inr st)"
  shows "\<exists>user. require_auth tok s = Inr user \<and> user \<in> set (db_userauth s) \<and>
           db_userauth s' = db_userauth s \<and>
           to_userauth_id payload \<noteq> str_oid (doc_id user) \<and>
           db_like s' = db_like s @
             [\<lparr>doc_id = like_oid, created_at = now,
               doc = \<lparr>from_userauth_id = str_oid (doc_id user),
                      to_userauth_id = to_userauth_id payload\<rparr>\<rparr>]"
proof -
  from assms obtain user where auth: "require_auth tok s = Inr user"
    and other: "to_userauth_id payload \<noteq> str_oid (doc_id user)"
    by (rule like_user_success)
  have s': "s' = fst (like_user payload tok like_oid match_oid now s)"
    using assms by simp
  show ?thesis
    using auth other require_auth_member [OF auth]
    by (auto simp: s' like_user_db_like)
qed

theorem like_edge_endpoints_witness:
  "\<exists>user. require_auth (Some ''tok-a'') store0 = Inr user \<and> user \<in> set (db_userauth store0) \<and>
     ''ffffffffffffffffffffffff'' \<noteq> str_oid (doc_id user) \<and>
     [\<lparr>doc_id = 16, created_at = 5,
       doc = \<lparr>from_userauth_id = id_alice,
              to_userauth_id = ''ffffffffffffffffffffffff''\<rparr>\<rparr>] =
     [\<lparr>doc_id = 16, created_at = 5,
       doc = \<lparr>from_userauth_id = str_oid (doc_id user),
              to_userauth_id = ''ffffffffffffffffffffffff''\<rparr>\<rparr>]"
proof -
  have other: "to_userauth_id (like_to ''ffffffffffffffffffffffff'') \<noteq> str_oid (doc_id alice)"
    by (simp add: ids id_alice_def)
  have run: "like_user (like_to ''ffffffffffffffffffffffff'') (Some ''tok-a'') 16 17 5 store0 =
     (store0\<lparr>db_like := [\<lparr>doc_id = 16, created_at = 5,
         doc = \<lparr>from_userauth_id = id_alice,
                to_userauth_id = ''ffffffffffffffffffffffff''\<rparr>\<rparr>]\<rparr>, Inr ''liked'')"
    by (simp add: like_user_other [OF auth_alice other] ids has_like_def)
  show ?thesis
    using like_edge_endpoints [OF run] by simp
qed

subsection \<open>The uniqueness invariant\<close>

lemma matches_for_sym: "matches_for s x y = matches_for s y x"
  unfolding matches_for_def by (rule filter_cong) (auto simp: match_for_def)

lemma graph_inv_empty: "db_match s = [] \<Longrightarrow> db_like s = [] \<Longrightarrow> graph_inv s"
  by (simp add: graph_inv_def matches_for_def has_like_def)

lemma like_user_other_inv:
  assumes auth: "require_auth tok s = Inr user"
    and other: "to_userauth_id payload \<noteq> str_oid (doc_id user)"
    and inv: "graph_inv s"
  shows "graph_inv (fst (like_user payload tok lo mo now s))"
proof -
  define u where "u = str_oid (doc_id user)"
  define t where "t = to_userauth_id payload"
  define s' where "s' = fst (like_user payload tok lo mo now s)"
  define fresh where "fresh \<longleftrightarrow> has_like s t u \<and> matches_for s u t = []"
  have ut: "t \<noteq> u" using other by (simp add: u_def t_def)
  from inv have le1: "\<And>x y. length (matches_for s x y) \<le> 1"
    and eq1: "\<And>x y. x \<noteq> y \<Longrightarrow> has_like s x y \<Longrightarrow> has_like s y x \<Longrightarrow>
                length (matches_for s x y) = 1"
    by (auto simp: graph_inv_def)
  have L: "has_like s' x y \<longleftrightarrow> has_like s x y \<or> (x = u \<and> y = t)" for x y
    unfolding s'_def u_def t_def by (rule has_like_after [OF auth other])
  have M: "matches_for s' x y =
      matches_for s x y @
        (if fresh \<and> ((x = u \<and> y = t) \<or> (x = t \<and> y = u))
         then [\<lparr>doc_id = mo, created_at = now, doc = \<lparr>userauth_a = u, userauth_b = t\<rparr>\<rparr>]
         else [])" for x y
    unfolding matches_for_def s'_def like_user_db_match [OF auth other] fresh_def u_def t_def
    by (auto simp: match_for_def)
  have sym: "matches_for s t u = matches_for s u t" by (rule matches_for_sym)
  have A: "length (matches_for s' x y) \<le> 1" for x y
    using le1 [of x y] sym by (auto simp: M fresh_def)
  have B: "length (matches_for s' x y) = 1"
    if xy: "x \<noteq> y" and l1: "has_like s' x y" and l2: "has_like s' y x" for x y
  proof (cases "(x = u \<and> y = t) \<or> (x = t \<and> y = u)")
    case False
    with l1 l2 have "has_like s x y" "has_like s y x" by (auto simp: L)
    with xy have "length (matches_for s x y) = 1" by (rule eq1)
    with False show ?thesis by (simp add: M)
  next
    case True
    with l1 l2 ut have rev: "has_like s t u" by (auto simp: L)
    have same: "matches_for s x y = matches_for s u t"
      using True sym by auto
    show ?thesis
    proof (cases "matches_for s u t = []")
      case empty: True
      with rev have fresh by (simp add: fresh_def)
      with True empty same show ?thesis by (simp add: M)
    next
      case False
      then have "\<not> fresh" by (simp add: fresh_def)
      moreover from False le1 [of u t] have "length (matches_for s u t) = 1"
        by (cases "matches_for s u t") auto
      ultimately show ?thesis using same by (simp add: M)
    qed
  qed
  show ?thesis
    unfolding graph_inv_def s'_def [symmetric] using A B by blast
qed

lemma like_user_inv:
  assumes inv: "graph_inv s"
  shows "graph_inv (fst (like_user payload tok lo mo now s))"
proof (cases tok s rule: require_auth_cases)
  case (1 e)
  then show ?thesis using inv by (simp add: like_user_unauthorized)
next
  case (2 user)
  show ?thesis
  proof (cases "to_userauth_id payload = str_oid (doc_id user)")
    case True
    then show ?thesis using inv like_user_self [OF 2 True] by simp
  next
    case False
    then show ?thesis using inv like_user_other_inv [OF 2 False] by simp
  qed
qed

lemma like_sequence_inv: "graph_inv s \<Longrightarrow> graph_inv (like_sequence rs s)"
  by (induction rs arbitrary: s) (auto simp: like_step_def like_user_inv)

lemma like_step_db_match:
  "db_match (fst (like_step r s)) = db_match s \<or>
   (\<exists>user. require_auth (req_token r) s = Inr user \<and>
      to_userauth_id (req_payload r) \<noteq> str_oid (doc_id user) \<and>
      snd (like_step r s) = Inr ''match'' \<and>
      has_like s (to_userauth_id (req_payload r)) (str_oid (doc_id user)) \<and>
      matches_for s (str_oid (doc_id user)) (to_userauth_id (req_payload r)) = [] \<and>
      db_match (fst (like_step r s)) = db_match s @
        [\<lparr>doc_id = req_match_oid r, created_at = req_now r,
          doc = \<lparr>userauth_a = str_oid (doc_id user),
                 userauth_b = to_userauth_id (req_payload r)\<rparr>\<rparr>])"
proof (cases "req_token r" s rule: require_auth_cases)
  case (1 e)
  then show ?thesis by (simp add: like_step_def like_user_unauthorized)
next
  case (2 user)
  show ?thesis
  proof (cases "to_userauth_id (req_payload r) = str_oid (doc_id user)")
    case True
    then show ?thesis using 2 by (simp add: like_step_def like_user_self)
  next
    case False
    then show ?thesis using 2
      by (simp add: like_step_def like_user_db_match like_user_status)
  qed
qed

text \<open>
  C2. Like calls executed one at a time keep the uniqueness invariant of the social
  graph. Starting from a store that satisfies it (a store without likes and matches
  does), after any sequence of calls of \<^verbatim>\<open>like_user\<close>: two distinct ids \<open>x\<close> and
  \<open>y\<close> with Like edges in both directions have exactly one Match edge for the pair, in
  either orientation, and no pair has more than one. And a single call, on any store,
  either leaves the matches as they were or appends one Match edge for the requester
  and the target; it does the latter only when it returns \<^verbatim>\<open>match\<close>, the reverse Like
  edge was already stored and the pair had no Match edge yet.
\<close>

theorem mutual_likes_have_one_match:
  assumes "graph_inv s0"
  shows "(x \<noteq> y \<and> has_like (like_sequence rs s0) x y \<and> has_like (like_sequence rs s0) y x
            \<longrightarrow> length (matches_for (like_sequence rs s0) x y) = 1) \<and>
         length (matches_for (like_sequence rs s0) x y) \<le> 1 \<and>
         (db_match (fst (like_step r s)) = db_match s \<or>
          (\<exists>user. require_auth (req_token r) s = Inr user \<and>
             to_userauth_id (req_payload r) \<noteq> str_oid (doc_id user) \<and>
             snd (like_step r s) = Inr ''match'' \<and>
             has_like s (to_userauth_id (req_payload r)) (str_oid (doc_id user)) \<and>
             matches_for s (str_oid (doc_id user)) (to_userauth_id (req_payload r)) = [] \<and>
             db_match (fst (like_step r s)) = db_match s @
               [\<lparr>doc_id = req_match_oid r, created_at = req_now r,
                 doc = \<lparr>userauth_a = str_oid (doc_id user),
                        userauth_b = to_userauth_id (req_payload r)\<rparr>\<rparr>]))"
proof -
  have "graph_inv (like_sequence rs s0)" using assms by (rule like_sequence_inv)
  then show ?thesis
    using like_step_db_match [of r s] by (simp add: graph_inv_def)
qed

lemma step_alice_bob:
  "fst (like_step req_alice_bob store0) =
     store0\<lparr>db_like := [\<lparr>doc_id = 16, created_at = 5,
        doc = \<lparr>from_userauth_id = id_alice, to_userauth_id = id_bob\<rparr>\<rparr>]\<rparr>"
proof -
  have other: "to_userauth_id (like_to id_bob) \<noteq> str_oid (doc_id alice)"
    by (simp add: ids ids_distinct)
  show ?thesis
    by (simp add: like_step_def req_alice_bob_def like_user_other [OF auth_alice other] ids
        has_like_def)
qed

lemma step_bob_alice:
  "fst (like_step req_bob_alice (fst (like_step req_alice_bob store0))) =
     store0\<lparr>db_like := [\<lparr>doc_id = 16, created_at = 5,
                doc = \<lparr>from_userauth_id = id_alice, to_userauth_id = id_bob\<rparr>\<rparr>,
              \<lparr>doc_id = 18, created_at = 6,
                doc = \<lparr>from_userauth_id = id_bob, to_userauth_id = id_alice\<rparr>\<rparr>],
            db_match := [\<lparr>doc_id = 19, created_at = 6,
                doc = \<lparr>userauth_a = id_bob, userauth_b = id_alice\<rparr>\<rparr>]\<rparr>"
proof -
  let ?s1 = "store0\<lparr>db_like := [\<lparr>doc_id = 16, created_at = 5,
        doc = \<lparr>from_userauth_id = id_alice, to_userauth_id = id_bob\<rparr>\<rparr>]\<rparr>"
  have auth: "require_auth (Some ''tok-b'') ?s1 = Inr bob"
    using auth_bob by (simp add: require_auth_def)
  have other: "to_userauth_id (like_to id_alice) \<noteq> str_oid (doc_id bob)"
    by (simp add: ids ids_distinct)
  show ?thesis
    unfolding step_alice_bob
    by (simp add: like_step_def req_bob_alice_def like_user_other [OF auth other] ids
        has_like_def matches_for_def)
qed

theorem mutual_likes_have_one_match_witness:
  "has_like (like_sequence [req_alice_bob, req_bob_alice] store0) id_alice id_bob \<and>
   has_like (like_sequence [req_alice_bob, req_bob_alice] store0) id_bob id_alice \<and>
   matches_for (like_sequence [req_alice_bob, req_bob_alice] store0) id_alice id_bob =
     [\<lparr>doc_id = 19, created_at = 6, doc = \<lparr>userauth_a = id_bob, userauth_b = id_alice\<rparr>\<rparr>] \<and>
   length (matches_for (like_sequence [req_alice_bob, req_bob_alice] store0) id_alice id_bob) = 1"
proof -
  have inv: "graph_inv store0" by (simp add: graph_inv_empty)
  show ?thesis
    using mutual_likes_have_one_match [OF inv, of id_alice id_bob
        "[req_alice_bob, req_bob_alice]" req_alice_bob store0]
    by (simp add: step_bob_alice has_like_def matches_for_def match_for_def ids_distinct)
qed

subsection \<open>The conversation gate\<close>

lemma find_match_None:
  "find_match mid s = None \<longleftrightarrow> (\<forall>m \<in> set (db_match s). ObjectId mid \<noteq> Some (doc_id m))"
  by (auto simp: find_match_def find_one_None split: option.splits)

lemma find_match_Some:
  "find_match mid s = Some m \<Longrightarrow> m \<in> set (db_match s) \<and> ObjectId mid = Some (doc_id m)"
  by (auto simp: find_match_def split: option.splits dest: find_one_Some)

lemma send_message_fail_store:
  "snd (send_message msg tok mo now s) = Inl e \<Longrightarrow> fst (send_message msg tok mo now s) = s"
  by (auto simp: send_message_def split: sum.splits option.splits if_splits)

text \<open>
  C6. For every authenticated requester and match id: when no Match edge has that id
  (also when the id is not an object identifier at all), \<^verbatim>\<open>send_message\<close> and
  \<^verbatim>\<open>get_messages\<close> fail with status 404; when the match found under that id names
  the requester in neither field, both fail with status 403; \<^verbatim>\<open>send_message\<close>
  appends the message exactly when the match is found and names the requester, and a
  call that fails returns the store it received.
\<close>

theorem chat_gate:
  assumes "require_auth tok s = Inr user"
  shows "((\<forall>m \<in> set (db_match s). ObjectId mid \<noteq> Some (doc_id m)) \<longrightarrow>
            send_message (chat mid txt) tok msg_oid now s =
              (s, Inl (HTTPException 404 ''Match not found'')) \<and>
            get_messages mid tok s = Inl (HTTPException 404 ''Match not found'')) \<and>
         (\<forall>m. find_match mid s = Some m \<longrightarrow>
            m \<in> set (db_match s) \<and> ObjectId mid = Some (doc_id m) \<and>
            (if str_oid (doc_id user) = userauth_a (doc m) \<or>
                str_oid (doc_id user) = userauth_b (doc m)
             then send_message (chat mid txt) tok msg_oid now s =
                    (s\<lparr>db_message := db_message s @
                         [\<lparr>doc_id = msg_oid, created_at = now,
                           doc = \<lparr>match_id = mid,
                                  msg_from_userauth_id = str_oid (doc_id user),
                                  msg_text = txt\<rparr>\<rparr>]\<rparr>, Inr ''sent'')
             else send_message (chat mid txt) tok msg_oid now s =
                    (s, Inl (HTTPException 403 ''Not allowed'')) \<and>
                  get_messages mid tok s = Inl (HTTPException 403 ''Not allowed''))) \<and>
         (find_match mid s = None \<longleftrightarrow>
            (\<forall>m \<in> set (db_match s). ObjectId mid \<noteq> Some (doc_id m))) \<and>
         (\<forall>e. snd (send_message (chat mid txt) tok msg_oid now s) = Inl e \<longrightarrow>
            fst (send_message (chat mid txt) tok msg_oid now s) = s)"
proof -
  have none: "find_match mid s = None \<longleftrightarrow>
      (\<forall>m \<in> set (db_match s). ObjectId mid \<noteq> Some (doc_id m))"
    by (rule find_match_None)
  have a: "(\<forall>m \<in> set (db_match s). ObjectId mid \<noteq> Some (doc_id m)) \<longrightarrow>
      send_message (chat mid txt) tok msg_oid now s =
        (s, Inl (HTTPException 404 ''Match not found'')) \<and>
      get_messages mid tok s = Inl (HTTPException 404 ''Match not found'')"
    using assms by (simp add: none [symmetric] send_message_def get_messages_def chat_def)
  have b: "m \<in> set (db_match s) \<and> ObjectId mid = Some (doc_id m) \<and>
      (if str_oid (doc_id user) = userauth_a (doc m) \<or>
          str_oid (doc_id user) = userauth_b (doc m)
       then send_message (chat mid txt) tok msg_oid now s =
              (s\<lparr>db_message := db_message s @
                   [\<lparr>doc_id = msg_oid, created_at = now,
                     doc = \<lparr>match_id = mid,
                            msg_from_userauth_id = str_oid (doc_id user),
                            msg_text = txt\<rparr>\<rparr>]\<rparr>, Inr ''sent'')
       else send_message (chat mid txt) tok msg_oid now s =
              (s, Inl (HTTPException 403 ''Not allowed'')) \<and>
            get_messages mid tok s = Inl (HTTPException 403 ''Not allowed''))"
    if "find_match mid s = Some m" for m
    using assms that find_match_Some [OF that]
    by (simp add: send_message_def get_messages_def chat_def create_document_def)
  show ?thesis
    using a b none send_message_fail_store by blast
qed

lemma str_oid_19: "str_oid 19 = id_match"
  by (simp add: str_oid_def digits_numeral hexdigit_def id_match_def)

lemma ObjectId_id_match: "ObjectId id_match = Some 19"
  using ObjectId_str_oid [of 19] by (simp add: str_oid_19)

lemma ObjectId_ffff: "ObjectId ''ffffffffffffffffffffffff'' = Some 0xffffffffffffffffffffffff"
  by (simp add: ObjectId_def hexval_def)

lemma store1_sel [simp]:
  "db_userauth store1 = [alice, bob, carol]" "db_profile store1 = []"
  "db_match store1 = [\<lparr>doc_id = 19, created_at = 6,
                     doc = \<lparr>userauth_a = id_bob, userauth_b = id_alice\<rparr>\<rparr>]"
  "db_message store1 = []"
  by (simp_all add: store1_def)

lemma auth1_alice: "require_auth (Some ''tok-a'') store1 = Inr alice"
  using auth_alice by (simp add: require_auth_def)

lemma auth1_carol: "require_auth (Some ''tok-c'') store1 = Inr carol"
  using auth_carol by (simp add: require_auth_def)

lemma find_match1: "find_match id_match store1 =
    Some \<lparr>doc_id = 19, created_at = 6, doc = \<lparr>userauth_a = id_bob, userauth_b = id_alice\<rparr>\<rparr>"
  by (simp add: find_match_def ObjectId_id_match find_one_def)

theorem chat_gate_witness:
  "send_message (chat id_match ''hi'') (Some ''tok-c'') 32 7 store1 =
     (store1, Inl (HTTPException 403 ''Not allowed'')) \<and>
   get_messages id_match (Some ''tok-c'') store1 = Inl (HTTPException 403 ''Not allowed'') \<and>
   send_message (chat ''ffffffffffffffffffffffff'' ''hi'') (Some ''tok-c'') 32 7 store1 =
     (store1, Inl (HTTPException 404 ''Match not found'')) \<and>
   get_messages ''ffffffffffffffffffffffff'' (Some ''tok-c'') store1 =
     Inl (HTTPException 404 ''Match not found'') \<and>
   send_message (chat id_match ''hi'') (Some ''tok-a'') 32 7 store1 =
     (store1\<lparr>db_message := [\<lparr>doc_id = 32, created_at = 7,
         doc = \<lparr>match_id = id_match, msg_from_userauth_id = id_alice,
                msg_text = ''hi''\<rparr>\<rparr>]\<rparr>, Inr ''sent'')"
proof -
  have nf: "\<forall>m \<in> set (db_match store1). ObjectId ''ffffffffffffffffffffffff'' \<noteq> Some (doc_id m)"
    by (simp add: ObjectId_ffff)
  show ?thesis
    using chat_gate [OF auth1_carol, of id_match "''hi''" 32 7]
      chat_gate [OF auth1_carol, of "''ffffffffffffffffffffffff''" "''hi''" 32 7]
      chat_gate [OF auth1_alice, of id_match "''hi''" 32 7] nf
    by (simp add: find_match1 ids ids_distinct)
qed

subsection \<open>Cascading delete\<close>

lemma delete_first_set: "set (delete_first P xs) \<subseteq> set xs"
  by (induction xs) auto

lemma delete_first_keeps: "\<not> P x \<Longrightarrow> x \<in> set xs \<Longrightarrow> x \<in> set (delete_first P xs)"
  by (induction xs) auto

lemma filter_delete_first:
  "(\<And>x. Q x \<Longrightarrow> \<not> P x) \<Longrightarrow> filter Q (delete_first P xs) = filter Q xs"
  by (induction xs) auto

lemma require_admin_ok: "require_admin env tok = Inr u \<longleftrightarrow> tok = Some (ADMIN_TOKEN env)"
  by (simp add: require_admin_def)

text \<open>The cascade, when the id is given in the string form of the identifier.\<close>

lemma admin_delete_user_canonical:
  assumes "tok = Some (ADMIN_TOKEN env)"
  shows "admin_delete_user env tok (str_oid i) s =
    (s\<lparr>db_profile := filter (\<lambda>p. userauth_id (doc p) \<noteq> str_oid i) (db_profile s),
       db_like := filter (\<lambda>l. from_userauth_id (doc l) \<noteq> str_oid i \<and>
                             to_userauth_id (doc l) \<noteq> str_oid i) (db_like s),
       db_match := filter (\<lambda>m. userauth_a (doc m) \<noteq> str_oid i \<and>
                              userauth_b (doc m) \<noteq> str_oid i) (db_match s),
       db_message := filter (\<lambda>d. msg_from_userauth_id (doc d) \<noteq> str_oid i) (db_message s),
       db_userauth := delete_first (\<lambda>u. doc_id u = i) (db_userauth s)\<rparr>,
     if \<exists>u \<in> set (db_userauth s). doc_id u = i then Inr ''deleted''
     else Inl (HTTPException 404 ''User not found''))"
  using assms
  by (auto simp: admin_delete_user_def require_admin_def ObjectId_str_oid Let_def
      delete_many_def delete_one_def find_one_None)

text \<open>
  What the deletion leaves alone, when the id is passed the way the system writes ids,
  as \<^verbatim>\<open>str\<close> of the identifier. Let \<open>a\<close> be an identity of the store and \<open>b\<close>
  another one. The call reports \<^verbatim>\<open>deleted\<close>; the profiles owned by \<open>b\<close> and the
  identity record of \<open>b\<close> are the same before and after; and whatever token is presented
  afterwards, \<^verbatim>\<open>get_matches\<close> lists no match that names \<open>a\<close>.
\<close>

lemma delete_user_frame:
  assumes admin: "tok = Some (ADMIN_TOKEN env)"
    and a: "a \<in> set (db_userauth s)"
    and b: "b \<in> set (db_userauth s)"
    and ne: "doc_id b \<noteq> doc_id a"
  shows "snd (admin_delete_user env tok (str_oid (doc_id a)) s) = Inr ''deleted'' \<and>
         filter (\<lambda>p. userauth_id (doc p) = str_oid (doc_id b))
           (db_profile (fst (admin_delete_user env tok (str_oid (doc_id a)) s))) =
         filter (\<lambda>p. userauth_id (doc p) = str_oid (doc_id b)) (db_profile s) \<and>
         filter (\<lambda>u. doc_id u = doc_id b)
           (db_userauth (fst (admin_delete_user env tok (str_oid (doc_id a)) s))) =
         filter (\<lambda>u. doc_id u = doc_id b) (db_userauth s) \<and>
         b \<in> set (db_userauth (fst (admin_delete_user env tok (str_oid (doc_id a)) s))) \<and>
         (\<forall>tokb ms. get_matches tokb (fst (admin_delete_user env tok (str_oid (doc_id a)) s))
              = Inr ms \<longrightarrow>
            (\<forall>m \<in> set ms. userauth_a (doc m) \<noteq> str_oid (doc_id a) \<and>
                           userauth_b (doc m) \<noteq> str_oid (doc_id a)))"
proof -
  let ?s' = "fst (admin_delete_user env tok (str_oid (doc_id a)) s)"
  have ex: "\<exists>u \<in> set (db_userauth s). doc_id u = doc_id a" using a by blast
  have ids: "str_oid (doc_id b) \<noteq> str_oid (doc_id a)" using ne by (simp add: str_oid_inject)
  have r: "snd (admin_delete_user env tok (str_oid (doc_id a)) s) = Inr ''deleted''"
    using ex by (simp add: admin_delete_user_canonical [OF admin])
  have p: "filter (\<lambda>p. userauth_id (doc p) = str_oid (doc_id b)) (db_profile ?s') =
           filter (\<lambda>p. userauth_id (doc p) = str_oid (doc_id b)) (db_profile s)"
    using ids by (auto simp: admin_delete_user_canonical [OF admin] intro: filter_cong)
  have u: "filter (\<lambda>u. doc_id u = doc_id b) (db_userauth ?s') =
           filter (\<lambda>u. doc_id u = doc_id b) (db_userauth s)"
    using ne by (simp add: admin_delete_user_canonical [OF admin] filter_delete_first)
  have bm: "b \<in> set (db_userauth ?s')"
    using b ne by (simp add: admin_delete_user_canonical [OF admin] delete_first_keeps)
  have m: "\<forall>m \<in> set ms. userauth_a (doc m) \<noteq> str_oid (doc_id a) \<and>
                           userauth_b (doc m) \<noteq> str_oid (doc_id a)"
    if "get_matches tokb ?s' = Inr ms" for tokb ms
    using that
    by (auto simp: get_matches_def admin_delete_user_canonical [OF admin] split: sum.splits)
  show ?thesis using r p u bm m by blast
qed


lemma store2_sel [simp]:
  "db_userauth store2 = [alice, bob, carol]"
  "db_profile store2 = [\<lparr>doc_id = 48, created_at = 2,
                        doc = a_profile id_alice ''Alice'' ''1990-05-17''\<rparr>,
                      \<lparr>doc_id = 49, created_at = 3,
                        doc = a_profile id_bob ''Bob'' ''1988-11-02''\<rparr>]"
  "db_match store2 = [\<lparr>doc_id = 19, created_at = 6,
                     doc = \<lparr>userauth_a = id_bob, userauth_b = id_alice\<rparr>\<rparr>]"
  by (simp_all add: store2_def)

lemma owner_a_profile [simp]: "userauth_id (a_profile owner name born) = owner"
  by (simp add: a_profile_def)

lemma delete_user_frame_example:
  "snd (admin_delete_user None (Some ''admin-secret'') id_alice store2) = Inr ''deleted'' \<and>
   db_profile (fst (admin_delete_user None (Some ''admin-secret'') id_alice store2)) =
     [\<lparr>doc_id = 49, created_at = 3, doc = a_profile id_bob ''Bob'' ''1988-11-02''\<rparr>] \<and>
   db_userauth (fst (admin_delete_user None (Some ''admin-secret'') id_alice store2)) =
     [bob, carol] \<and>
   get_matches (Some ''tok-b'')
     (fst (admin_delete_user None (Some ''admin-secret'') id_alice store2)) = Inr []"
proof -
  have admin: "Some ''admin-secret'' = Some (ADMIN_TOKEN None)"
    by (simp add: ADMIN_TOKEN_def)
  have a: "alice \<in> set (db_userauth store2)" and b: "bob \<in> set (db_userauth store2)"
    by simp_all
  have ne: "doc_id bob \<noteq> doc_id alice" by (simp add: alice_def bob_def)
  have ida: "str_oid (doc_id alice) = id_alice" by (rule ids)
  have da: "doc_id alice = 1" by (simp add: alice_def)
  have nb: "doc_id bob \<noteq> 1" "doc_id carol \<noteq> 1" by (simp_all add: bob_def carol_def)
  have tb: "token (doc bob) = ''tok-b''" "token (doc carol) \<noteq> ''tok-b''"
    by (simp_all add: bob_def carol_def)
  show ?thesis
    using delete_user_frame [OF admin a b ne]
    unfolding ida
    by (simp add: admin_delete_user_canonical [OF admin, of 1, unfolded str_oid_1,
          folded id_alice_def] da nb ids_distinct get_matches_def require_auth_def
        find_one_def tb)
qed

lemma ObjectId_id_dave_upper: "ObjectId id_dave_upper = Some 171"
  by (simp add: ObjectId_def hexval_def id_dave_upper_def)

lemma ObjectId_id_dave: "ObjectId id_dave = Some 171"
  by (simp add: ObjectId_def hexval_def id_dave_def)

lemma str_oid_171: "str_oid 171 = id_dave"
  by (simp add: str_oid_def digits_numeral hexdigit_def id_dave_def)

text \<open>
  C7, at an id the handler accepts but does not handle. \<^verbatim>\<open>ObjectId\<close> reads hexadecimal
  digits of either case, so the upper-case spelling of Dave's id is well-formed and
  names Dave: the identity record is found through the parsed identifier and removed,
  and the call reports \<^verbatim>\<open>deleted\<close>. The four cascade deletions compare the stored
  lower-case strings with the spelling as it was passed, match nothing, and leave
  Dave's profile, like, match and message in the store. With the lower-case spelling
  the same call removes them all.
\<close>

theorem delete_user_uppercase_id:
  "ObjectId id_dave_upper = Some (doc_id dave) \<and> str_oid (doc_id dave) = id_dave \<and>
   admin_delete_user None (Some ''admin-secret'') id_dave_upper store_dave =
     (store_dave\<lparr>db_userauth := [alice]\<rparr>, Inr ''deleted'') \<and>
   admin_delete_user None (Some ''admin-secret'') id_dave store_dave =
     (\<lparr>db_userauth = [alice], db_profile = [], db_like = [], db_match = [],
       db_message = []\<rparr>, Inr ''deleted'')"
proof -
  have d: "doc_id dave = 171" by (simp add: dave_def)
  have a: "doc_id alice \<noteq> 171" by (simp add: alice_def)
  have neq: "id_dave \<noteq> id_dave_upper" "id_alice \<noteq> id_dave_upper" "id_alice \<noteq> id_dave"
    by (simp_all add: id_dave_def id_dave_upper_def id_alice_def)
  have up: "admin_delete_user None (Some ''admin-secret'') id_dave_upper store_dave =
     (store_dave\<lparr>db_userauth := [alice]\<rparr>, Inr ''deleted'')"
    by (simp add: admin_delete_user_def require_admin_def ADMIN_TOKEN_def
        ObjectId_id_dave_upper Let_def delete_many_def delete_one_def find_one_def
        store_dave_def d a neq)
  have lo: "admin_delete_user None (Some ''admin-secret'') id_dave store_dave =
     (\<lparr>db_userauth = [alice], db_profile = [], db_like = [], db_match = [],
       db_message = []\<rparr>, Inr ''deleted'')"
    by (simp add: admin_delete_user_def require_admin_def ADMIN_TOKEN_def
        ObjectId_id_dave Let_def delete_many_def delete_one_def find_one_def
        store_dave_def d a neq)
  show ?thesis
    using up lo by (simp add: ObjectId_id_dave_upper d str_oid_171)
qed

lemma delete_dave_upper:
  "admin_delete_user None (Some ''admin-secret'') id_dave_upper store_dave =
     (store_dave\<lparr>db_userauth := [alice]\<rparr>, Inr ''deleted'')"
proof -
  have d: "doc_id dave = 171" by (simp add: dave_def)
  have a: "doc_id alice \<noteq> 171" by (simp add: alice_def)
  have neq: "id_dave \<noteq> id_dave_upper" "id_alice \<noteq> id_dave_upper"
    by (simp_all add: id_dave_def id_dave_upper_def id_alice_def)
  show ?thesis
    by (simp add: admin_delete_user_def require_admin_def ADMIN_TOKEN_def
        ObjectId_id_dave_upper Let_def delete_many_def delete_one_def find_one_def
        store_dave_def d a neq)
qed

text \<open>
  C8, at the same id. Dave and Alice are matched. The admin deletes Dave under the
  upper-case spelling of his id: the spelling parses to Dave's identifier, the call
  reports \<^verbatim>\<open>deleted\<close> and Dave's identity record is gone. Alice's identity record
  is unchanged, but the match that names Dave is still stored, and \<^verbatim>\<open>get_matches\<close>
  for Alice lists it.
\<close>

theorem delete_user_uppercase_matches:
  "ObjectId id_dave_upper = Some (doc_id dave) \<and> str_oid (doc_id dave) = id_dave \<and>
   db_userauth store_dave = [alice, dave] \<and>
   snd (admin_delete_user None (Some ''admin-secret'') id_dave_upper store_dave) =
     Inr ''deleted'' \<and>
   db_userauth (fst (admin_delete_user None (Some ''admin-secret'') id_dave_upper store_dave)) =
     [alice] \<and>
   get_matches (Some ''tok-a'')
     (fst (admin_delete_user None (Some ''admin-secret'') id_dave_upper store_dave)) =
     Inr [\<lparr>doc_id = 66, created_at = 3,
           doc = \<lparr>userauth_a = id_dave, userauth_b = id_alice\<rparr>\<rparr>]"
proof -
  have d: "doc_id dave = 171" by (simp add: dave_def)
  have ta: "token (doc alice) = ''tok-a''" by (simp add: alice_def)
  have users: "db_userauth store_dave = [alice, dave]" by (simp add: store_dave_def)
  have matches: "db_match store_dave =
      [\<lparr>doc_id = 66, created_at = 3, doc = \<lparr>userauth_a = id_dave, userauth_b = id_alice\<rparr>\<rparr>]"
    by (simp add: store_dave_def)
  have gm: "get_matches (Some ''tok-a'') (store_dave\<lparr>db_userauth := [alice]\<rparr>) =
      Inr [\<lparr>doc_id = 66, created_at = 3,
            doc = \<lparr>userauth_a = id_dave, userauth_b = id_alice\<rparr>\<rparr>]"
    by (simp add: get_matches_def require_auth_def find_one_def ta matches ids)
  show ?thesis
    by (simp add: delete_dave_upper gm users ObjectId_id_dave_upper d str_oid_171)
qed

subsection \<open>Profile upsert\<close>

lemma update_one_distinct:
  "distinct (map doc_id xs) \<Longrightarrow>
   update_one (\<lambda>p. doc_id p = i) f xs = map (\<lambda>p. if doc_id p = i then f p else p) xs"
proof (induction xs)
  case Nil
  show ?case by simp
next
  case (Cons x xs)
  show ?case
  proof (cases "doc_id x = i")
    case True
    from Cons.prems have "doc_id x \<notin> doc_id ` set xs" by simp
    with True have "\<forall>p \<in> set xs. doc_id p \<noteq> i" by (metis imageI)
    then have "map (\<lambda>p. if doc_id p = i then f p else p) xs = xs"
      by (simp add: map_idI)
    with True show ?thesis by simp
  next
    case False
    with Cons show ?thesis by simp
  qed
qed

lemma filter_map_unchanged:
  assumes "\<And>p. p \<in> set xs \<Longrightarrow> Q (g p) = Q p" and "\<And>p. p \<in> set xs \<Longrightarrow> Q p \<Longrightarrow> g p = p"
  shows "filter Q (map g xs) = filter Q xs"
  using assms by (induction xs) auto

lemma length_filter_map:
  assumes "\<And>p. p \<in> set xs \<Longrightarrow> Q (g p) = Q p"
  shows "length (filter Q (map g xs)) = length (filter Q xs)"
  using assms by (induction xs) auto

lemma distinct_doc_id_eq:
  "distinct (map doc_id xs) \<Longrightarrow> p \<in> set xs \<Longrightarrow> e \<in> set xs \<Longrightarrow> doc_id p = doc_id e \<Longrightarrow> p = e"
  by (meson distinct_map inj_on_def)

text \<open>The two branches of the upsert.\<close>

lemma upsert_created:
  assumes "require_auth tok s = Inr user" "paid (doc user)"
    and "\<forall>p \<in> set (db_profile s). userauth_id (doc p) \<noteq> str_oid (doc_id user)"
  shows "create_or_update_profile profile tok new_oid now s =
    (s\<lparr>db_profile := db_profile s @
         [\<lparr>doc_id = new_oid, created_at = now,
           doc = profile\<lparr>userauth_id := str_oid (doc_id user)\<rparr>\<rparr>]\<rparr>, Inr ''created'')"
proof -
  have "find_one (\<lambda>p. userauth_id (doc p) = str_oid (doc_id user)) (db_profile s) = None"
    using assms(3) by (simp add: find_one_None)
  then show ?thesis
    using assms(1,2) by (simp add: create_or_update_profile_def create_document_def)
qed

lemma upsert_updated:
  assumes "require_auth tok s = Inr user" "paid (doc user)"
    and "find_one (\<lambda>p. userauth_id (doc p) = str_oid (doc_id user)) (db_profile s) = Some e"
    and "distinct (map doc_id (db_profile s))"
  shows "create_or_update_profile profile tok new_oid now s =
    (s\<lparr>db_profile := map (\<lambda>p. if doc_id p = doc_id e
                                then p\<lparr>doc := profile\<lparr>userauth_id := str_oid (doc_id user)\<rparr>\<rparr>
                                else p) (db_profile s)\<rparr>, Inr ''updated'')"
  using assms
  by (simp add: create_or_update_profile_def update_one_distinct)

text \<open>
  C10. For every authenticated caller that has paid, on a store whose profile documents
  have distinct identifiers: the upsert succeeds as \<^verbatim>\<open>created\<close> or \<^verbatim>\<open>updated\<close>;
  the store then holds a profile whose fields are the request body with
  \<^verbatim>\<open>userauth_id\<close> replaced by the caller's own id, whatever the body said; the
  profiles of every other owner are exactly those of before, in the same order; and
  if no owner had more than one profile before, none has more than one after.
\<close>

theorem profile_upsert_owner:
  assumes auth: "require_auth tok s = Inr user"
    and paid: "paid (doc user)"
    and dist: "distinct (map doc_id (db_profile s))"
  shows "(snd (create_or_update_profile profile tok new_oid now s) = Inr ''created'' \<or>
          snd (create_or_update_profile profile tok new_oid now s) = Inr ''updated'') \<and>
         (\<exists>p \<in> set (db_profile (fst (create_or_update_profile profile tok new_oid now s))).
            doc p = profile\<lparr>userauth_id := str_oid (doc_id user)\<rparr>) \<and>
         filter (\<lambda>p. userauth_id (doc p) \<noteq> str_oid (doc_id user))
           (db_profile (fst (create_or_update_profile profile tok new_oid now s))) =
         filter (\<lambda>p. userauth_id (doc p) \<noteq> str_oid (doc_id user)) (db_profile s) \<and>
         ((\<forall>x. length (filter (\<lambda>p. userauth_id (doc p) = x) (db_profile s)) \<le> 1) \<longrightarrow>
          (\<forall>x. length (filter (\<lambda>p. userauth_id (doc p) = x)
             (db_profile (fst (create_or_update_profile profile tok new_oid now s)))) \<le> 1))"
proof (cases "find_one (\<lambda>p. userauth_id (doc p) = str_oid (doc_id user)) (db_profile s)")
  case None
  then have none: "\<forall>p \<in> set (db_profile s). userauth_id (doc p) \<noteq> str_oid (doc_id user)"
    by (simp add: find_one_None)
  then have zero: "filter (\<lambda>p. userauth_id (doc p) = str_oid (doc_id user)) (db_profile s) = []"
    by (simp add: filter_empty_conv)
  show ?thesis
    unfolding upsert_created [OF auth paid none]
    using zero by auto
next
  case (Some e)
  let ?u = "str_oid (doc_id user)"
  let ?g = "\<lambda>p. if doc_id p = doc_id e then p\<lparr>doc := profile\<lparr>userauth_id := ?u\<rparr>\<rparr> else p"
  from Some have e: "e \<in> set (db_profile s)" "userauth_id (doc e) = ?u"
    by (auto dest: find_one_Some)
  have same: "p = e" if "p \<in> set (db_profile s)" "doc_id p = doc_id e" for p
    using dist that(1) e(1) that(2) by (rule distinct_doc_id_eq)
  have owner: "userauth_id (doc (?g p)) = userauth_id (doc p)" if "p \<in> set (db_profile s)" for p
    using same [OF that] e(2) by auto
  have a: "\<exists>p \<in> set (map ?g (db_profile s)). doc p = profile\<lparr>userauth_id := ?u\<rparr>"
  proof (rule bexI [of _ "?g e"])
    show "doc (?g e) = profile\<lparr>userauth_id := ?u\<rparr>" by simp
    show "?g e \<in> set (map ?g (db_profile s))" unfolding set_map using e(1) by (rule imageI)
  qed
  have b: "filter (\<lambda>p. userauth_id (doc p) \<noteq> ?u) (map ?g (db_profile s)) =
           filter (\<lambda>p. userauth_id (doc p) \<noteq> ?u) (db_profile s)"
  proof (rule filter_map_unchanged)
    fix p assume "p \<in> set (db_profile s)"
    then show "(userauth_id (doc (?g p)) \<noteq> ?u) = (userauth_id (doc p) \<noteq> ?u)"
      by (simp only: owner)
  next
    fix p assume "p \<in> set (db_profile s)" "userauth_id (doc p) \<noteq> ?u"
    then show "?g p = p" using same e(2) by auto
  qed
  have c: "length (filter (\<lambda>p. userauth_id (doc p) = x) (map ?g (db_profile s))) =
           length (filter (\<lambda>p. userauth_id (doc p) = x) (db_profile s))" for x
    by (rule length_filter_map) (simp only: owner)
  show ?thesis
    unfolding upsert_updated [OF auth paid Some dist]
    using a b c by simp
qed


lemma auth2_alice: "require_auth (Some ''tok-a'') store2 = Inr alice"
  using auth_alice by (simp add: require_auth_def)

lemma a_profile_owner_update:
  "(a_profile owner name born)\<lparr>userauth_id := u\<rparr> = a_profile u name born"
  by (simp add: a_profile_def)

theorem profile_upsert_owner_witness:
  "snd (create_or_update_profile (a_profile id_bob ''Mallory'' ''2000-01-01'')
          (Some ''tok-a'') 80 9 store2) = Inr ''updated'' \<and>
   db_profile (fst (create_or_update_profile (a_profile id_bob ''Mallory'' ''2000-01-01'')
          (Some ''tok-a'') 80 9 store2)) =
     [\<lparr>doc_id = 48, created_at = 2, doc = a_profile id_alice ''Mallory'' ''2000-01-01''\<rparr>,
      \<lparr>doc_id = 49, created_at = 3, doc = a_profile id_bob ''Bob'' ''1988-11-02''\<rparr>]"
proof -
  have paid: "paid (doc alice)" by (simp add: alice_def)
  have dist: "distinct (map doc_id (db_profile store2))" by simp
  have found: "find_one (\<lambda>p. userauth_id (doc p) = str_oid (doc_id alice)) (db_profile store2) =
      Some \<lparr>doc_id = 48, created_at = 2, doc = a_profile id_alice ''Alice'' ''1990-05-17''\<rparr>"
    by (simp add: find_one_def ids)
  show ?thesis
    using profile_upsert_owner [OF auth2_alice paid dist,
        of "a_profile id_bob ''Mallory'' ''2000-01-01''" 80 9]
    by (simp add: upsert_updated [OF auth2_alice paid found dist] ids a_profile_owner_update)
qed

subsection \<open>The age filter of the search\<close>

lemma of_char_hexdigit: "d < 10 \<Longrightarrow> of_char (hexdigit d) = (48 + d :: nat)"
proof -
  assume "d < 10"
  then have "d = 0 \<or> d = 1 \<or> d = 2 \<or> d = 3 \<or> d = 4 \<or> d = 5 \<or> d = 6 \<or> d = 7 \<or> d = 8 \<or>
     d = 9" by arith
  then show ?thesis by (auto simp: hexdigit_def)
qed

lemma hexdigit_less: "a < 10 \<Longrightarrow> b < 10 \<Longrightarrow> hexdigit a < hexdigit b \<longleftrightarrow> a < b"
  by (simp add: less_char_def of_char_hexdigit)

lemma hexdigit_eq: "a < 10 \<Longrightarrow> b < 10 \<Longrightarrow> hexdigit a = hexdigit b \<longleftrightarrow> a = b"
  by (metis hexdigit_less nat_neq_iff less_irrefl)

lemma lex_step:
  fixes r r' K a b :: nat
  assumes "r < K" "r' < K"
  shows "K * a + r < K * b + r' \<longleftrightarrow> a < b \<or> (a = b \<and> r < r')"
proof (cases a b rule: linorder_cases)
  case less
  then have "K * Suc a \<le> K * b" by (intro mult_le_mono2) simp
  then have "K * a + K \<le> K * b" by simp
  with assms less show ?thesis by simp
next
  case equal
  then show ?thesis by simp
next
  case greater
  then have "K * Suc b \<le> K * a" by (intro mult_le_mono2) simp
  then have "K * b + K \<le> K * a" by simp
  with assms greater show ?thesis by simp
qed

lemma digits_less:
  "digits 10 k m < digits 10 k n \<longleftrightarrow> m mod 10 ^ k < n mod 10 ^ k"
proof (induction k)
  case 0
  show ?case by simp
next
  case (Suc k)
  let ?a = "m div 10 ^ k mod 10" and ?b = "n div 10 ^ k mod 10"
  have m: "m mod 10 ^ Suc k = 10 ^ k * ?a + m mod 10 ^ k"
    using mod_mult2_eq [of m "10 ^ k" 10] by (simp add: mult.commute)
  have n: "n mod 10 ^ Suc k = 10 ^ k * ?b + n mod 10 ^ k"
    using mod_mult2_eq [of n "10 ^ k" 10] by (simp add: mult.commute)
  have "digits 10 (Suc k) m < digits 10 (Suc k) n \<longleftrightarrow>
      ?a < ?b \<or> (?a = ?b \<and> m mod 10 ^ k < n mod 10 ^ k)"
    by (simp add: hexdigit_less hexdigit_eq Suc.IH)
  also have "\<dots> \<longleftrightarrow> m mod 10 ^ Suc k < n mod 10 ^ Suc k"
    unfolding m n by (rule lex_step [symmetric]) simp_all
  finally show ?case .
qed

lemma digits_less_small:
  "m < 10 ^ k \<Longrightarrow> n < 10 ^ k \<Longrightarrow> digits 10 k m < digits 10 k n \<longleftrightarrow> m < n"
  by (simp add: digits_less)

lemma digits_eq_small:
  assumes "m < 10 ^ k" "n < 10 ^ k"
  shows "digits 10 k m = digits 10 k n \<longleftrightarrow> m = n"
proof
  assume eq: "digits 10 k m = digits 10 k n"
  have "\<not> m < n" using digits_less_small [OF assms] eq by simp
  moreover have "\<not> n < m" using digits_less_small [OF assms(2,1)] eq by simp
  ultimately show "m = n" by simp
qed simp

lemma append_less_same_length:
  "length xs = length ys \<Longrightarrow>
   xs @ us < ys @ vs \<longleftrightarrow> xs < ys \<or> (xs = ys \<and> us < (vs :: 'a::linorder list))"
  by (induction xs ys rule: list_induct2) auto


lemma days_in_month_le: "days_in_month y m \<le> 31"
  by (simp add: days_in_month_def)

lemma isoformat_less:
  assumes "valid_date a" "valid_date b"
  shows "isoformat a < isoformat b \<longleftrightarrow>
     year a < year b \<or> (year a = year b \<and>
       (month a < month b \<or> (month a = month b \<and> day a < day b)))"
proof -
  have ya: "nat (year a) < 10 ^ 4" and yb: "nat (year b) < 10 ^ 4"
    using assms by (auto simp: valid_date_def)
  have ma: "nat (month a) < 10 ^ 2" and mb: "nat (month b) < 10 ^ 2"
    using assms by (auto simp: valid_date_def)
  have da: "nat (day a) < 10 ^ 2" and db: "nat (day b) < 10 ^ 2"
    using assms days_in_month_le [of "year a" "month a"] days_in_month_le [of "year b" "month b"]
    by (auto simp: valid_date_def)
  have pos: "0 < year a" "0 < year b" "0 < month a" "0 < month b" "0 < day a" "0 < day b"
    using assms by (simp_all add: valid_date_def)
  have "isoformat a < isoformat b \<longleftrightarrow>
      nat (year a) < nat (year b) \<or> (nat (year a) = nat (year b) \<and>
        (nat (month a) < nat (month b) \<or> (nat (month a) = nat (month b) \<and>
           nat (day a) < nat (day b))))"
    unfolding isoformat_def
    by (simp add: append_less_same_length digits_less_small [OF ya yb]
        digits_eq_small [OF ya yb] digits_less_small [OF ma mb] digits_eq_small [OF ma mb]
        digits_less_small [OF da db])
  also have "\<dots> \<longleftrightarrow> year a < year b \<or> (year a = year b \<and>
       (month a < month b \<or> (month a = month b \<and> day a < day b)))"
    using pos by auto
  finally show ?thesis .
qed

lemma isoformat_le:
  assumes "valid_date a" "valid_date b"
  shows "isoformat a \<le> isoformat b \<longleftrightarrow> date_le a b"
proof -
  have "isoformat a \<le> isoformat b \<longleftrightarrow> \<not> isoformat b < isoformat a" by auto
  also have "\<dots> \<longleftrightarrow> date_le a b"
    unfolding isoformat_less [OF assms(2,1)] date_le_def by auto
  finally show ?thesis .
qed

lemma date_le_refl: "date_le a a"
  by (simp add: date_le_def)

lemma prev_day_before: "valid_date c \<Longrightarrow> \<not> date_le c (prev_day c)"
  by (auto simp: date_le_def prev_day_def valid_date_def)

lemma valid_date_c_int: "valid_date d \<Longrightarrow> c_int (year d) \<and> c_int (month d) \<and> c_int (day d)"
  using days_in_month_le [of "year d" "month d"] by (simp add: valid_date_def c_int_def)

lemma date_cutoff:
  "date (year today - max a 0) (month today) (day today) = Inr c \<longleftrightarrow>
     valid_date (cutoff today a) \<and> c = cutoff today a"
  using valid_date_c_int [of "cutoff today a"] by (auto simp: date_def cutoff_def)

lemma search_match_Inr:
  assumes "search_match today q = Inr m"
  shows "m = (base_match q)
           \<lparr>m_birth_date_lte := map_option (\<lambda>a. isoformat (cutoff today a)) (age_min q),
            m_birth_date_gte := map_option (\<lambda>a. isoformat (cutoff today a)) (age_max q)\<rparr>"
    and "\<And>a. age_min q = Some a \<Longrightarrow> valid_date (cutoff today a)"
    and "\<And>a. age_max q = Some a \<Longrightarrow> valid_date (cutoff today a)"
  using assms
  by (auto simp: search_match_def birth_bound_def date_cutoff
      split: option.splits if_splits sum.splits)

lemma profile_matches_bounds:
  "profile_matches rx ((base_match q)\<lparr>m_birth_date_lte := lo, m_birth_date_gte := hi\<rparr>) p \<longleftrightarrow>
     profile_matches rx (base_match q) p \<and>
     (\<forall>v. lo = Some v \<longrightarrow> birth_date (doc p) \<le> v) \<and>
     (\<forall>v. hi = Some v \<longrightarrow> v \<le> birth_date (doc p))"
  by (auto simp: profile_matches_def base_match_def split: option.splits)


lemma candidates_Inr:
  assumes "search_profiles_candidates rx today q tok s = Inr cands"
  obtains m where "search_match today q = Inr m"
    "cands = filter (profile_matches rx m) (db_profile s)"
  using assms
  by (auto simp: search_profiles_candidates_def split: sum.splits)

text \<open>
  C9, amended. The cutoff of an age bound is today's month and day in the year
  \<^verbatim>\<open>today.year - max(age, 0)\<close>: for an age that is not negative, the year reduced by
  the age, and a negative age counts as 0. Whenever the search does not fail, a profile
  whose \<^verbatim>\<open>birth_date\<close> is the ISO form of a calendar date \<open>b\<close> is a candidate
  exactly when it is stored, passes the other filters, \<open>b\<close> is on or before the cutoff
  of \<^verbatim>\<open>age_min\<close> and on or after the cutoff of \<^verbatim>\<open>age_max\<close> (each where set).
  So a profile born exactly on the cutoff of \<^verbatim>\<open>age_max\<close> is included, one born the
  day before is excluded, and with \<^verbatim>\<open>age_min\<close> set only profiles born on or before
  its cutoff pass.
\<close>

theorem age_filter_cutoffs:
  assumes run: "search_profiles_candidates rx today q tok s = Inr cands"
    and vb: "valid_date b"
    and bd: "birth_date (doc p) = isoformat b"
  shows "(p \<in> set cands \<longleftrightarrow>
            p \<in> set (db_profile s) \<and> profile_matches rx (base_match q) p \<and>
            (\<forall>a. age_min q = Some a \<longrightarrow> date_le b (cutoff today a)) \<and>
            (\<forall>a. age_max q = Some a \<longrightarrow> date_le (cutoff today a) b)) \<and>
         (\<forall>a. age_max q = Some a \<and> b = cutoff today a \<and>
               p \<in> set (db_profile s) \<and> profile_matches rx (base_match q) p \<and>
               (\<forall>a'. age_min q = Some a' \<longrightarrow> date_le b (cutoff today a'))
               \<longrightarrow> p \<in> set cands) \<and>
         (\<forall>a. age_max q = Some a \<and> b = prev_day (cutoff today a) \<longrightarrow> p \<notin> set cands) \<and>
         (\<forall>a. age_min q = Some a \<and> p \<in> set cands \<longrightarrow> date_le b (cutoff today a)) \<and>
         (\<forall>a. 0 \<le> a \<longrightarrow>
            cutoff today a = \<lparr>year = year today - a, month = month today, day = day today\<rparr>)"
proof -
  from run obtain m where m: "search_match today q = Inr m"
    and cands: "cands = filter (profile_matches rx m) (db_profile s)"
    by (rule candidates_Inr)
  note sm = search_match_Inr [OF m]
  have lo: "birth_date (doc p) \<le> isoformat (cutoff today a) \<longleftrightarrow> date_le b (cutoff today a)"
    if "age_min q = Some a" for a
    unfolding bd using vb sm(2) [OF that] by (rule isoformat_le)
  have hi: "isoformat (cutoff today a) \<le> birth_date (doc p) \<longleftrightarrow> date_le (cutoff today a) b"
    if "age_max q = Some a" for a
    unfolding bd using sm(3) [OF that] vb by (rule isoformat_le)
  have main: "p \<in> set cands \<longleftrightarrow>
      p \<in> set (db_profile s) \<and> profile_matches rx (base_match q) p \<and>
      (\<forall>a. age_min q = Some a \<longrightarrow> date_le b (cutoff today a)) \<and>
      (\<forall>a. age_max q = Some a \<longrightarrow> date_le (cutoff today a) b)"
    unfolding cands sm(1) using lo hi by (auto simp: profile_matches_bounds)
  have on: "p \<in> set cands"
    if "age_max q = Some a" "b = cutoff today a" "p \<in> set (db_profile s)"
      "profile_matches rx (base_match q) p"
      "\<forall>a'. age_min q = Some a' \<longrightarrow> date_le b (cutoff today a')" for a
    using that by (auto simp: main date_le_refl)
  have before: "p \<notin> set cands" if "age_max q = Some a" "b = prev_day (cutoff today a)" for a
    using that prev_day_before [OF sm(3) [OF that(1)]] by (auto simp: main)
  have only: "date_le b (cutoff today a)" if "age_min q = Some a" "p \<in> set cands" for a
    using that by (auto simp: main)
  have clamp: "cutoff today a = \<lparr>year = year today - a, month = month today, day = day today\<rparr>"
    if "0 \<le> a" for a
    using that by (simp add: cutoff_def)
  show ?thesis
    using main on before only clamp by blast
qed

lemma iso_1994_06_15: "isoformat \<lparr>year = 1994, month = 6, day = 15\<rparr> = ''1994-06-15''"
  by (simp add: isoformat_def digits_numeral hexdigit_def)

lemma iso_2024_06_15: "isoformat \<lparr>year = 2024, month = 6, day = 15\<rparr> = ''2024-06-15''"
  by (simp add: isoformat_def digits_numeral hexdigit_def)

lemma iso_2025_06_14: "isoformat \<lparr>year = 2025, month = 6, day = 14\<rparr> = ''2025-06-14''"
  by (simp add: isoformat_def digits_numeral hexdigit_def)

lemma auth3_alice: "require_auth (Some ''tok-a'') store3 = Inr alice"
  using auth_alice by (simp add: require_auth_def store3_def)

lemma born [simp]:
  "birth_date (doc born_on_cutoff) = ''1994-06-15''"
  "birth_date (doc born_day_before) = ''1994-06-14''"
  "birth_date (doc born_next_year) = ''2025-06-14''"
  by (simp_all add: born_on_cutoff_def born_day_before_def born_next_year_def a_profile_def)

lemma by_age_sel [simp]: "age_min (by_age lo hi) = lo" "age_max (by_age lo hi) = hi"
  by (simp_all add: by_age_def)

lemma base_by_age: "profile_matches rx (base_match (by_age lo hi)) p"
  by (simp add: profile_matches_def base_match_def by_age_def truthy_def opt_eq_def)

lemma store3_sel [simp]:
  "db_profile store3 = [born_on_cutoff, born_day_before, born_next_year]"
  by (simp add: store3_def)

lemma match_30:
  "search_match today0 (by_age None (Some 30)) =
     Inr ((base_match (by_age None (Some 30)))
            \<lparr>m_birth_date_lte := None, m_birth_date_gte := Some ''1994-06-15''\<rparr>)"
  by (simp add: search_match_def birth_bound_def date_def c_int_def valid_date_def
      days_in_month_def today0_def iso_1994_06_15)

lemma match_minus_1:
  "search_match today0 (by_age None (Some (- 1))) =
     Inr ((base_match (by_age None (Some (- 1))))
            \<lparr>m_birth_date_lte := None, m_birth_date_gte := Some ''2024-06-15''\<rparr>)"
  by (simp add: search_match_def birth_bound_def date_def c_int_def valid_date_def
      days_in_month_def today0_def iso_2024_06_15)

lemma search_30:
  "search_profiles_candidates no_regex today0 (by_age None (Some 30)) (Some ''tok-a'') store3 =
     Inr [born_on_cutoff, born_next_year]"
  by (simp add: search_profiles_candidates_def auth3_alice match_30
      profile_matches_bounds base_by_age less_eq_char_def less_char_def)

lemma search_minus_1:
  "search_profiles_candidates no_regex today0 (by_age None (Some (- 1))) (Some ''tok-a'') store3 =
     Inr [born_next_year]"
  by (simp add: search_profiles_candidates_def auth3_alice match_minus_1
      profile_matches_bounds base_by_age less_eq_char_def less_char_def)


lemma cutoff_30: "cutoff today0 30 = \<lparr>year = 1994, month = 6, day = 15\<rparr>"
  by (simp add: cutoff_def today0_def)

lemma prev_cutoff_30: "prev_day (cutoff today0 30) = \<lparr>year = 1994, month = 6, day = 14\<rparr>"
  by (simp add: cutoff_30 prev_day_def)

lemma iso_1994_06_14: "isoformat \<lparr>year = 1994, month = 6, day = 14\<rparr> = ''1994-06-14''"
  by (simp add: isoformat_def digits_numeral hexdigit_def)

theorem age_filter_cutoffs_witness:
  "search_profiles_candidates no_regex today0 (by_age None (Some 30)) (Some ''tok-a'') store3 =
     Inr [born_on_cutoff, born_next_year] \<and>
   birth_date (doc born_on_cutoff) = isoformat (cutoff today0 30) \<and>
   birth_date (doc born_day_before) = isoformat (prev_day (cutoff today0 30)) \<and>
   born_on_cutoff \<in> set [born_on_cutoff, born_next_year] \<and>
   born_day_before \<notin> set [born_on_cutoff, born_next_year]"
proof -
  have v1: "valid_date (cutoff today0 30)"
    by (simp add: cutoff_30 valid_date_def days_in_month_def)
  have v2: "valid_date (prev_day (cutoff today0 30))"
    by (simp add: prev_cutoff_30 valid_date_def days_in_month_def)
  have b1: "birth_date (doc born_on_cutoff) = isoformat (cutoff today0 30)"
    by (simp add: cutoff_30 iso_1994_06_15)
  have b2: "birth_date (doc born_day_before) = isoformat (prev_day (cutoff today0 30))"
    by (simp add: prev_cutoff_30 iso_1994_06_14)
  have out: "born_day_before \<notin> set [born_on_cutoff, born_next_year]"
    using age_filter_cutoffs [OF search_30 v2 b2] by simp
  show ?thesis
    using search_30 b1 b2 out by simp
qed

text \<open>
  C9, as the spec states it, for every search with \<^verbatim>\<open>age_max\<close> set. With
  \<^verbatim>\<open>age_max = -1\<close> on 15 June 2024 the date \<^verbatim>\<open>age_max\<close> years before today is
  15 June 2025; the handler clamps the age to 0 and uses today as the cutoff. The
  profile born on 14 June 2025, one day earlier than the claim's cutoff, is a
  candidate.
\<close>

theorem negative_age_max_includes_earlier:
  "search_profiles_candidates no_regex today0 (by_age None (Some (- 1))) (Some ''tok-a'') store3 =
     Inr [born_next_year] \<and>
   valid_date (prev_day \<lparr>year = year today0 - (- 1), month = month today0, day = day today0\<rparr>) \<and>
   birth_date (doc born_next_year) =
     isoformat (prev_day \<lparr>year = year today0 - (- 1), month = month today0, day = day today0\<rparr>)"
proof -
  have p: "prev_day \<lparr>year = year today0 - (- 1), month = month today0, day = day today0\<rparr> =
      \<lparr>year = 2025, month = 6, day = 14\<rparr>"
    by (simp add: today0_def prev_day_def)
  show ?thesis
    unfolding p
    by (simp add: search_minus_1 iso_2025_06_14 valid_date_def days_in_month_def)
qed

end
